theory Spec2Isabelle
  imports Main "HOL-Library.Word" "HOL-Library.Multiset" "HOL-Library.AList"
begin

unbundle bit_operations_syntax

section \<open>Pattern matcher (helpers/index.ts, compilePattern)\<close>

text \<open>
  \<^verbatim>\<open>compilePattern\<close> builds the source text of a regular expression from the
  pattern by two global string replacements and hands it to the \<^verbatim>\<open>RegExp\<close>
  constructor. The model keeps the two stages apart: the replacements work on
  strings, and \<open>RegExp\<close> reads the resulting text. Of the regular expression
  language only the part that the replacements can produce from ordinary event
  names is modelled: literal characters, \<^verbatim>\<open>.\<close>, the class \<^verbatim>\<open>[^.]\<close> and the
  quantifiers \<^verbatim>\<open>*\<close> and \<^verbatim>\<open>?\<close> (greedy or lazy). A text that uses other
  metacharacters yields \<open>Unsupported\<close>; the model says nothing about such a
  pattern. Strings are sequences of 8-bit characters. \<open>Raised n\<close> is the
  exception number \<open>n\<close> of the caller's code.
\<close>

datatype error = SyntaxError | TypeError | Unsupported | Raised nat

datatype atom = Lit char | AnyChar | NotDot

datatype quant = One | Star | Optional

type_synonym regex = "(atom \<times> quant) list"

datatype token = TLit char | TDot | TNotDot | TStar | TQuest | TBad

text \<open>\<^verbatim>\<open>s.replace(/\*\*/g, '.*')\<close>: non-overlapping matches, left to right.\<close>

fun replace_double_star :: "string \<Rightarrow> string" where
  "replace_double_star [] = []"
| "replace_double_star [c] = [c]"
| "replace_double_star (c # d # cs) =
     (if c = CHR ''*'' \<and> d = CHR ''*'' then ''.*'' @ replace_double_star cs
      else c # replace_double_star (d # cs))"

text \<open>\<^verbatim>\<open>s.replace(/\*/g, '[^.]*')\<close>.\<close>

fun replace_star :: "string \<Rightarrow> string" where
  "replace_star [] = []"
| "replace_star (c # cs) =
     (if c = CHR ''*'' then ''[^.]*'' @ replace_star cs else c # replace_star cs)"

definition classify :: "char \<Rightarrow> token" where
  "classify c =
     (if c = CHR ''.'' then TDot
      else if c = CHR ''*'' then TStar
      else if c = CHR ''?'' then TQuest
      else if c \<in> set (CHR 0x5C # ''^$|+()[]{}'') then TBad
      else TLit c)"

fun lex :: "string \<Rightarrow> token list" where
  "lex [] = []"
| "lex (c # cs) =
     (if c = CHR ''['' then
        (case cs of
           a # b # d # rest \<Rightarrow>
             if a = CHR ''^'' \<and> b = CHR ''.'' \<and> d = CHR '']'' then TNotDot # lex rest
             else [TBad]
         | _ \<Rightarrow> [TBad])
      else classify c # lex cs)"

fun atom_of :: "token \<Rightarrow> atom option" where
  "atom_of (TLit c) = Some (Lit c)"
| "atom_of TDot = Some AnyChar"
| "atom_of TNotDot = Some NotDot"
| "atom_of TStar = None"
| "atom_of TQuest = None"
| "atom_of TBad = None"

definition cons_item :: "atom \<times> quant \<Rightarrow> error + regex \<Rightarrow> error + regex" where
  "cons_item i r = (case r of Inl e \<Rightarrow> Inl e | Inr items \<Rightarrow> Inr (i # items))"

text \<open>
  An atom followed by at most one quantifier, itself followed by at most one
  \<^verbatim>\<open>?\<close> (the lazy mark). A quantifier where an atom is expected is the
  constructor's ``nothing to repeat'' SyntaxError.
\<close>

fun parse :: "token list \<Rightarrow> error + regex" where
  "parse [] = Inr []"
| "parse (t # ts) =
     (case atom_of t of
        None \<Rightarrow> Inl (if t = TBad then Unsupported else SyntaxError)
      | Some a \<Rightarrow>
          (case ts of
             TStar # TQuest # r \<Rightarrow> cons_item (a, Star) (parse r)
           | TStar # r \<Rightarrow> cons_item (a, Star) (parse r)
           | TQuest # TQuest # r \<Rightarrow> cons_item (a, Optional) (parse r)
           | TQuest # r \<Rightarrow> cons_item (a, Optional) (parse r)
           | _ \<Rightarrow> cons_item (a, One) (parse ts)))"

text \<open>\<^verbatim>\<open>new RegExp(src)\<close> for a text of the shape \<^verbatim>\<open>^body$\<close>.\<close>

definition RegExp :: "string \<Rightarrow> error + regex" where
  "RegExp src =
     (case src of
        [] \<Rightarrow> Inl Unsupported
      | c # cs \<Rightarrow>
          if c = CHR ''^'' \<and> cs \<noteq> [] \<and> last cs = CHR ''$''
          then parse (lex (butlast cs))
          else Inl Unsupported)"

text \<open>
  The process-wide cache \<^verbatim>\<open>PATTERN_CACHE\<close> stores the result of this pure
  function under the pattern text, so a cached lookup and a fresh compilation
  agree; the model computes the result anew.
\<close>

definition compilePattern :: "string \<Rightarrow> error + regex" where
  "compilePattern pattern =
     (if pattern = ''*'' \<or> pattern = ''**'' then Inr [(AnyChar, Star)]
      else RegExp (''^'' @ replace_star (replace_double_star pattern) @ ''$''))"

fun atom_ok :: "atom \<Rightarrow> char \<Rightarrow> bool" where
  "atom_ok (Lit c) x = (x = c)"
| "atom_ok AnyChar x = (x \<noteq> CHR 0x0A \<and> x \<noteq> CHR 0x0D)"
| "atom_ok NotDot x = (x \<noteq> CHR ''.'')"

text \<open>
  \<^verbatim>\<open>regex.test(name)\<close> for an expression anchored at both ends: the whole
  name has to be matched. The expressions carry no \<^verbatim>\<open>g\<close> flag, so a test
  leaves no state behind.
\<close>

fun matches :: "regex \<Rightarrow> string \<Rightarrow> bool" where
  "matches [] s = (s = [])"
| "matches ((a, One) # r) [] = False"
| "matches ((a, One) # r) (c # cs) = (atom_ok a c \<and> matches r cs)"
| "matches ((a, Optional) # r) [] = matches r []"
| "matches ((a, Optional) # r) (c # cs) =
     (matches r (c # cs) \<or> (atom_ok a c \<and> matches r cs))"
| "matches ((a, Star) # r) [] = matches r []"
| "matches ((a, Star) # r) (c # cs) =
     (matches r (c # cs) \<or> (atom_ok a c \<and> matches ((a, Star) # r) cs))"

definition pattern_test :: "string \<Rightarrow> string \<Rightarrow> bool option" where
  "pattern_test pattern name =
     (case compilePattern pattern of Inl e \<Rightarrow> None | Inr rx \<Rightarrow> Some (matches rx name))"


section \<open>Data model (types/Listeners.ts and the fields of class EventEmitter)\<close>

text \<open>
  An event key is a string or a symbol (an identity with a description). A
  listener is a function object, compared by identity: a function of the
  caller's (\<open>Fn\<close>, numbered), the closure that \<^verbatim>\<open>addListener\<close> builds
  around a listener registered with \<^verbatim>\<open>times > 0\<close> (\<open>Wrapper\<close>, numbered, with
  the event name and the original function it captures), the handler closure
  of one \<^verbatim>\<open>waitFor\<close> call (\<open>WaitHandler\<close>), the handler closure that \<^verbatim>\<open>race\<close>
  makes for one entry of its list (\<open>RaceHandler\<close>: the race, the position in
  the list and the event name it captures), or a function that the stores
  inherit from \<^verbatim>\<open>Object.prototype\<close> (\<open>Builtin\<close>, by its name).

  What a function of the caller's does when it is called is outside the
  repository. The model records the call in a trace and lets a parameter
  \<open>\<beta>\<close> say, per function and argument tuple, whether the function calls
  \<^verbatim>\<open>stopPropagation()\<close> on the emitter and whether it throws, and what. A function
  that calls any other method of the emitter is outside the model. A filter is
  a function of the caller's too: a predicate on the argument tuple that may
  throw. A piped target is another emitter, known by a number; of its
  \<^verbatim>\<open>emit\<close> the parameter says whether it throws.
\<close>

datatype key = Str string | Sym nat string

datatype val = VStr string | VSym nat string | VNum int | VUndefined

datatype listener =
    Fn nat
  | Wrapper nat key nat
  | WaitHandler nat
  | RaceHandler nat nat key
  | Builtin string


record behaviour =
  effect :: "nat \<Rightarrow> val list \<Rightarrow> bool \<times> error option"
  target_throws :: "nat \<Rightarrow> key \<Rightarrow> val list \<Rightarrow> error option"

record options =
  opt_ttl :: "int option"
  opt_times :: "int option"
  opt_priority :: "int option"
  opt_filter :: "(val list \<Rightarrow> error + bool) option"

record meta =
  priority :: int
  times_m :: int
  timeoutId :: nat
  original :: "listener option"
  lastAccess :: nat
  filter_m :: "(val list \<Rightarrow> error + bool) option"

text \<open>
  A store entry is a bare function or a reference to an array; arrays live in
  a heap of their own, since \<^verbatim>\<open>emit\<close> walks an array by index while the
  listeners it calls may splice that same array.
\<close>

datatype slot = Single listener | Arr nat

text \<open>
  What \<^verbatim>\<open>store[key]\<close> evaluates to. The stores are plain objects (\<^verbatim>\<open>{}\<close>), so a
  key that the store does not hold itself is looked up in \<^verbatim>\<open>Object.prototype\<close>:
  \<^verbatim>\<open>__proto__\<close> gives that object itself, which is neither a function nor an
  array and has no \<^verbatim>\<open>length\<close>; every other name gives an entry of the store, an
  inherited function, or nothing.
\<close>

datatype found = ObjectPrototype | Entry "slot option"

type_synonym wentry = "nat \<times> regex"

datatype timer_action =
    RemoveListenerAction key listener
  | NoAction
  | WaitForTimeout nat key int
  | RaceTimeout nat "key list" int

datatype outcome = Pending | Resolved "val list" | Won key "val list" | Rejected string

text \<open>
  What can be observed from outside: a call of a function of the caller's, an
  emission forwarded to a piped target, an error that \<^verbatim>\<open>emitAsync\<close> caught and
  logged, an error that escaped from a timer callback.
\<close>

datatype event =
    Called nat "val list"
  | Forwarded nat key "val list"
  | Logged error
  | Uncaught error

text \<open>
  The first eight fields are the fields of the class; \<open>wildcards\<close> is the
  \<^verbatim>\<open>Map\<close> in insertion order. A piped target is another emitter object,
  known here by a number: forwarding to it is recorded in the trace, and what
  the target then does is \<open>emit\<close> on the target's own state. The other fields
  are the runtime around the emitter: the array heap, the counters that give
  fresh closures, arrays, timers and promises their identity, the clock and
  the pending timers, and per \<^verbatim>\<open>waitFor\<close> or \<^verbatim>\<open>race\<close> call its
  \<^verbatim>\<open>timer\<close> variable (0 for \<^verbatim>\<open>undefined\<close>) and the state of its promise;
  per \<^verbatim>\<open>race\<close> call also its \<^verbatim>\<open>handlers\<close> map, in insertion order, and
  its \<^verbatim>\<open>resolved\<close> variable. \<open>polluted\<close> is the property \<^verbatim>\<open>undefined\<close> of
  \<^verbatim>\<open>Object.prototype\<close>, which a registration for the key \<^verbatim>\<open>__proto__\<close>
  writes.
\<close>

record emitter =
  events :: "key \<Rightarrow> slot option"
  onceEvents :: "key \<Rightarrow> slot option"
  wildcards :: "(string \<times> wentry list) list"
  anyListeners :: "nat list"
  pipes :: "nat list"
  metadata :: "(listener \<Rightarrow> meta option) option"
  propagationStopped :: bool
  flags :: "32 word"
  heap :: "nat \<Rightarrow> listener list"
  nextArray :: nat
  nextWrapper :: nat
  clock :: nat
  timers :: "(nat \<times> nat \<times> timer_action) list"
  nextTimer :: nat
  waitTimer :: "nat \<Rightarrow> nat"
  promises :: "nat \<Rightarrow> outcome"
  nextWait :: nat
  trace :: "event list"
  polluted :: "listener option"
  raceHandlers :: "nat \<Rightarrow> (key \<times> listener) list"
  raceResolved :: "nat \<Rightarrow> bool"

definition HAS_WILDCARDS :: "32 word" where "HAS_WILDCARDS = 1"
definition HAS_PIPES :: "32 word" where "HAS_PIPES = 2"
definition HAS_ANY :: "32 word" where "HAS_ANY = 4"
definition HAS_FILTERS :: "32 word" where "HAS_FILTERS = 8"

text \<open>
  \<^verbatim>\<open>new EventEmitter()\<close>, in a program that has not touched
  \<^verbatim>\<open>Object.prototype\<close>. The constructor's options only start an interval
  whose callback is empty (\<^verbatim>\<open>startAutoCleanup\<close>), so they change nothing that
  the operations below read. The two stores hold nothing themselves.
\<close>

definition new_emitter :: emitter where
  "new_emitter =
     \<lparr>events = (\<lambda>k. None), onceEvents = (\<lambda>k. None), wildcards = [],
      anyListeners = [], pipes = [], metadata = None,
      propagationStopped = False, flags = 0,
      heap = (\<lambda>a. []), nextArray = 0, nextWrapper = 0, clock = 0,
      timers = [], nextTimer = 1, waitTimer = (\<lambda>p. 0),
      promises = (\<lambda>p. Pending), nextWait = 0, trace = [], polluted = None,
      raceHandlers = (\<lambda>p. []), raceResolved = (\<lambda>p. False)\<rparr>"

subsection \<open>Looking a key up in a store\<close>

text \<open>
  The members of \<^verbatim>\<open>Object.prototype\<close> are the platform's, not code of the
  repository: eleven functions and the accessor \<^verbatim>\<open>__proto__\<close>. The emitter
  calls a listener as a plain function, so an inherited function runs with
  \<^verbatim>\<open>this\<close> undefined: \<^verbatim>\<open>constructor\<close>, \<^verbatim>\<open>toString\<close> and, for
  arguments that are no objects, \<^verbatim>\<open>isPrototypeOf\<close> return; the others
  convert \<^verbatim>\<open>this\<close> to an object and throw a TypeError.
\<close>

definition object_prototype_methods :: "string list" where
  "object_prototype_methods =
     [''constructor'', ''__defineGetter__'', ''__defineSetter__'', ''hasOwnProperty'',
      ''__lookupGetter__'', ''__lookupSetter__'', ''isPrototypeOf'',
      ''propertyIsEnumerable'', ''toString'', ''valueOf'', ''toLocaleString'']"

definition builtin_returns :: "string \<Rightarrow> bool" where
  "builtin_returns name = (name \<in> set [''constructor'', ''isPrototypeOf'', ''toString''])"

definition inherited :: "emitter \<Rightarrow> key \<Rightarrow> slot option" where
  "inherited s k =
     (case k of
        Sym n d \<Rightarrow> None
      | Str name \<Rightarrow>
          if name \<in> set object_prototype_methods then Some (Single (Builtin name))
          else if name = ''undefined'' then map_option Single (polluted s)
          else None)"

definition lookup :: "(key \<Rightarrow> slot option) \<Rightarrow> key \<Rightarrow> emitter \<Rightarrow> found" where
  "lookup store k s =
     (if k = Str ''__proto__'' then ObjectPrototype
      else Entry (case store k of Some v \<Rightarrow> Some v | None \<Rightarrow> inherited s k))"

text \<open>The entry, where \<^verbatim>\<open>Object.prototype\<close> counts as no listener.\<close>

definition entry :: "found \<Rightarrow> slot option" where
  "entry fd = (case fd of ObjectPrototype \<Rightarrow> None | Entry v \<Rightarrow> v)"

subsection \<open>Timers and promises\<close>

text \<open>
  Modelled from the spec: the timer primitive (``a way to schedule a callback
  after a delay and cancel it before it fires'') is the platform's
  \<^verbatim>\<open>setTimeout\<close>/\<^verbatim>\<open>clearTimeout\<close>, not code of the repository. A timer is
  its handle (never 0), the clock value at which it is due and its callback.
\<close>

definition setTimeout :: "timer_action \<Rightarrow> int \<Rightarrow> emitter \<Rightarrow> emitter \<times> nat" where
  "setTimeout act delay s =
     (s\<lparr>timers := timers s @ [(nextTimer s, clock s + nat delay, act)],
        nextTimer := Suc (nextTimer s)\<rparr>, nextTimer s)"

definition clearTimeout :: "nat \<Rightarrow> emitter \<Rightarrow> emitter" where
  "clearTimeout tid s = s\<lparr>timers := filter (\<lambda>t. fst t \<noteq> tid) (timers s)\<rparr>"

text \<open>Settling a promise that is already settled does nothing.\<close>

definition settle :: "nat \<Rightarrow> outcome \<Rightarrow> emitter \<Rightarrow> emitter" where
  "settle p out s =
     (if promises s p = Pending then s\<lparr>promises := (promises s)(p := out)\<rparr> else s)"

definition resolve :: "nat \<Rightarrow> val list \<Rightarrow> emitter \<Rightarrow> emitter" where
  "resolve p args s =
     (if promises s p = Pending then s\<lparr>promises := (promises s)(p := Resolved args)\<rparr> else s)"

definition reject :: "nat \<Rightarrow> string \<Rightarrow> emitter \<Rightarrow> emitter" where
  "reject p msg s =
     (if promises s p = Pending then s\<lparr>promises := (promises s)(p := Rejected msg)\<rparr> else s)"

subsection \<open>Metadata helpers (helpers/index.ts)\<close>

definition meta_get :: "emitter \<Rightarrow> listener \<Rightarrow> meta option" where
  "meta_get s l = (case metadata s of None \<Rightarrow> None | Some m \<Rightarrow> m l)"

definition cleanupListener :: "listener \<Rightarrow> emitter \<Rightarrow> emitter" where
  "cleanupListener l s =
     (case metadata s of
        None \<Rightarrow> s
      | Some m \<Rightarrow>
          (let s1 = (case m l of
                       None \<Rightarrow> s
                     | Some me \<Rightarrow> if timeoutId me \<noteq> 0 then clearTimeout (timeoutId me) s else s)
           in s1\<lparr>metadata := Some (m(l := None))\<rparr>))"

definition checkFilter :: "meta option \<Rightarrow> val list \<Rightarrow> error + bool" where
  "checkFilter me args =
     (case me of
        None \<Rightarrow> Inr True
      | Some m \<Rightarrow> (case filter_m m of None \<Rightarrow> Inr True | Some f \<Rightarrow> f args))"

definition priority_of :: "emitter \<Rightarrow> listener \<Rightarrow> int" where
  "priority_of s l = (case meta_get s l of None \<Rightarrow> 0 | Some me \<Rightarrow> priority me)"


subsection \<open>Array operations\<close>

text \<open>\<^verbatim>\<open>xs.splice(i, 1)\<close>, \<^verbatim>\<open>xs.indexOf(x)\<close> and a search from the end.\<close>

definition remove_at :: "nat \<Rightarrow> 'a list \<Rightarrow> 'a list" where
  "remove_at i xs = take i xs @ drop (Suc i) xs"

fun index_of :: "'a \<Rightarrow> 'a list \<Rightarrow> nat option" where
  "index_of x [] = None"
| "index_of x (y # ys) =
     (if y = x then Some 0
      else (case index_of x ys of None \<Rightarrow> None | Some i \<Rightarrow> Some (Suc i)))"

fun last_index :: "('a \<Rightarrow> bool) \<Rightarrow> 'a list \<Rightarrow> nat option" where
  "last_index P [] = None"
| "last_index P (y # ys) =
     (case last_index P ys of
        Some i \<Rightarrow> Some (Suc i)
      | None \<Rightarrow> if P y then Some 0 else None)"

definition slot_list :: "emitter \<Rightarrow> slot option \<Rightarrow> listener list" where
  "slot_list s sl =
     (case sl of None \<Rightarrow> [] | Some (Single l) \<Rightarrow> [l] | Some (Arr a) \<Rightarrow> heap s a)"

definition alloc :: "listener list \<Rightarrow> emitter \<Rightarrow> emitter \<times> nat" where
  "alloc xs s =
     (s\<lparr>heap := (heap s)(nextArray s := xs), nextArray := Suc (nextArray s)\<rparr>, nextArray s)"

text \<open>
  The plain registration of \<^verbatim>\<open>addListener\<close> and \<^verbatim>\<open>once\<close>: an empty entry
  takes the bare function, a bare function becomes a two-element array, an
  array is extended in place. The result is the entry to store under the key.
\<close>

definition store_append :: "slot option \<Rightarrow> listener \<Rightarrow> emitter \<Rightarrow> emitter \<times> slot" where
  "store_append current l s =
     (case current of
        None \<Rightarrow> (s, Single l)
      | Some (Single c) \<Rightarrow> (let (s1, a) = alloc [c, l] s in (s1, Arr a))
      | Some (Arr a) \<Rightarrow> (s\<lparr>heap := (heap s)(a := heap s a @ [l])\<rparr>, Arr a))"

text \<open>
  The loop of the nonzero-priority branch: the new listener goes before the
  first element whose priority is strictly lower, and to the end if there is
  none.
\<close>

fun insert_by_priority :: "(listener \<Rightarrow> int) \<Rightarrow> int \<Rightarrow> listener \<Rightarrow> listener list \<Rightarrow> listener list" where
  "insert_by_priority pr p x [] = [x]"
| "insert_by_priority pr p x (y # ys) =
     (if p > pr y then x # y # ys else y # insert_by_priority pr p x ys)"

text \<open>
  The nonzero-priority branch. For an empty entry the source starts the array
  as \<^verbatim>\<open>[finalListener]\<close> and then runs the insertion loop on it as well.
\<close>

definition store_insert :: "int \<Rightarrow> slot option \<Rightarrow> listener \<Rightarrow> emitter \<Rightarrow> emitter \<times> slot" where
  "store_insert p current l s =
     (let (s1, a) = (case current of
                       None \<Rightarrow> alloc [l] s
                     | Some (Single c) \<Rightarrow> alloc [c] s
                     | Some (Arr a) \<Rightarrow> (s, a))
      in (s1\<lparr>heap := (heap s1)(a := insert_by_priority (priority_of s1) p l (heap s1 a))\<rparr>,
          Arr a))"

text \<open>
  After a splice: an array left with one element is replaced by that element,
  an empty one is deleted from the store.
\<close>

definition splice_out :: "nat \<Rightarrow> nat \<Rightarrow> emitter \<Rightarrow> emitter \<times> slot option" where
  "splice_out a i s =
     (let xs = remove_at i (heap s a)
      in (s\<lparr>heap := (heap s)(a := xs)\<rparr>,
          if length xs = 1 then Some (Single (hd xs))
          else if length xs = 0 then None
          else Some (Arr a)))"

subsection \<open>Removal (removeAllForEvent, removeAllListeners, removeListener)\<close>

definition is_falsy :: "key \<Rightarrow> bool" where
  "is_falsy k = (k = Str [])"

text \<open>
  \<^verbatim>\<open>clear\<close> in \<^verbatim>\<open>removeAllForEvent\<close> cleans up what the lookup gives, then
  deletes the store's own entry. For \<^verbatim>\<open>Object.prototype\<close> the cleanup finds no
  metadata.
\<close>

definition clear_store :: "slot option \<Rightarrow> emitter \<Rightarrow> emitter" where
  "clear_store v s = fold cleanupListener (slot_list s v) s"

definition removeAllForEvent :: "key \<Rightarrow> emitter \<Rightarrow> emitter \<times> 32 word" where
  "removeAllForEvent k s =
     (let (s1, fl) =
            (case k of
               Sym n d \<Rightarrow> (s, 0)
             | Str name \<Rightarrow>
                 (case map_of (wildcards s) name of
                    None \<Rightarrow> (s, 0)
                  | Some entries \<Rightarrow>
                      (let s' = fold (\<lambda>e. cleanupListener (Fn (fst e))) entries s;
                           ws = AList.delete name (wildcards s')
                       in (s'\<lparr>wildcards := ws\<rparr>, if ws = [] then 1 else 0))));
          s2 = (clear_store (entry (lookup (events s1) k s1)) s1)
                 \<lparr>events := (events s1)(k := None)\<rparr>;
          s3 = (clear_store (entry (lookup (onceEvents s2) k s2)) s2)
                 \<lparr>onceEvents := (onceEvents s2)(k := None)\<rparr>
      in (s3, fl))"

definition removeAllListeners :: "key option \<Rightarrow> emitter \<Rightarrow> emitter" where
  "removeAllListeners eventName s =
     (case (case eventName of None \<Rightarrow> None | Some k \<Rightarrow> if is_falsy k then None else Some k) of
        Some k \<Rightarrow> (let (s1, fl) = removeAllForEvent k s in s1\<lparr>flags := flags s1 AND NOT fl\<rparr>)
      | None \<Rightarrow>
          s\<lparr>wildcards := [], anyListeners := [], pipes := [], flags := 0,
            events := (\<lambda>k. None), onceEvents := (\<lambda>k. None), metadata := None\<rparr>)"

text \<open>The wildcard part of \<^verbatim>\<open>removeListener\<close>; \<open>None\<close> when it does not return.\<close>

definition remove_wildcard :: "key \<Rightarrow> listener \<Rightarrow> emitter \<Rightarrow> emitter option" where
  "remove_wildcard k fn s =
     (case k of
        Sym n d \<Rightarrow> None
      | Str name \<Rightarrow>
          (case map_of (wildcards s) name of
             None \<Rightarrow> None
           | Some entries \<Rightarrow>
               (case last_index (\<lambda>e. Fn (fst e) = fn) entries of
                  None \<Rightarrow> None
                | Some i \<Rightarrow>
                    (let s1 = cleanupListener fn s;
                         es = remove_at i entries
                     in if es = [] then
                          (let ws = AList.delete name (wildcards s1)
                           in Some (s1\<lparr>wildcards := ws,
                                       flags := (if ws = [] then flags s1 AND NOT HAS_WILDCARDS
                                                 else flags s1)\<rparr>))
                        else Some (s1\<lparr>wildcards := AList.update name es (wildcards s1)\<rparr>)))))"

definition wraps :: "emitter \<Rightarrow> listener \<Rightarrow> listener \<Rightarrow> bool" where
  "wraps s fn x = (case meta_get s x of None \<Rightarrow> False | Some me \<Rightarrow> original me = Some fn)"

text \<open>
  The two blocks of \<^verbatim>\<open>removeListener\<close> for the regular and the once store.
  On \<^verbatim>\<open>Object.prototype\<close> the call \<^verbatim>\<open>l.indexOf(fn)\<close> throws a TypeError.
\<close>

definition remove_regular :: "key \<Rightarrow> listener \<Rightarrow> emitter \<Rightarrow> error + emitter" where
  "remove_regular k fn s =
     (case lookup (events s) k s of
        ObjectPrototype \<Rightarrow> Inl TypeError
      | Entry None \<Rightarrow> Inr s
      | Entry (Some (Single l)) \<Rightarrow>
          Inr (if l = fn then (cleanupListener fn s)\<lparr>events := (events s)(k := None)\<rparr> else s)
      | Entry (Some (Arr a)) \<Rightarrow>
          Inr (case index_of fn (heap s a) of
                 Some idx \<Rightarrow>
                   (let (s1, sl) = splice_out a idx (cleanupListener fn s)
                    in s1\<lparr>events := (events s1)(k := sl)\<rparr>)
               | None \<Rightarrow>
                   if metadata s = None then s
                   else (case last_index (wraps s fn) (heap s a) of
                           None \<Rightarrow> s
                         | Some i \<Rightarrow>
                             (let (s1, sl) = splice_out a i (cleanupListener (heap s a ! i) s)
                              in s1\<lparr>events := (events s1)(k := sl)\<rparr>))))"

definition remove_once :: "key \<Rightarrow> listener \<Rightarrow> emitter \<Rightarrow> error + emitter" where
  "remove_once k fn s =
     (case lookup (onceEvents s) k s of
        ObjectPrototype \<Rightarrow> Inl TypeError
      | Entry None \<Rightarrow> Inr s
      | Entry (Some (Single l)) \<Rightarrow>
          Inr (if l = fn then (cleanupListener fn s)\<lparr>onceEvents := (onceEvents s)(k := None)\<rparr>
               else s)
      | Entry (Some (Arr a)) \<Rightarrow>
          Inr (case index_of fn (heap s a) of
                 Some idx \<Rightarrow>
                   (let (s1, sl) = splice_out a idx (cleanupListener fn s)
                    in s1\<lparr>onceEvents := (onceEvents s1)(k := sl)\<rparr>)
               | None \<Rightarrow> s))"

definition removeListener :: "key option \<Rightarrow> listener option \<Rightarrow> emitter \<Rightarrow> error + emitter" where
  "removeListener eventName listener s =
     (case (case eventName of None \<Rightarrow> None | Some k \<Rightarrow> if is_falsy k then None else Some k) of
        None \<Rightarrow> Inr (removeAllListeners None s)
      | Some k \<Rightarrow>
          (case listener of
             None \<Rightarrow>
               Inr (let (s1, fl) = removeAllForEvent k s in s1\<lparr>flags := flags s1 AND NOT fl\<rparr>)
           | Some fn \<Rightarrow>
               (case remove_wildcard k fn s of
                  Some s1 \<Rightarrow> Inr s1
                | None \<Rightarrow>
                    (case remove_regular k fn s of
                       Inl e \<Rightarrow> Inl e
                     | Inr s1 \<Rightarrow> remove_once k fn s1))))"


subsection \<open>Registration (addWildcardListener, addListener, once, pipe, unpipe)\<close>

definition is_pattern :: "key \<Rightarrow> bool" where
  "is_pattern k =
     (case k of Str name \<Rightarrow> CHR ''*'' \<in> set name \<or> CHR ''?'' \<in> set name | Sym n d \<Rightarrow> False)"

definition ensure_metadata :: "emitter \<Rightarrow> emitter" where
  "ensure_metadata s =
     (case metadata s of None \<Rightarrow> s\<lparr>metadata := Some (\<lambda>l. None)\<rparr> | Some m \<Rightarrow> s)"

definition metadata_set :: "listener \<Rightarrow> meta \<Rightarrow> emitter \<Rightarrow> emitter" where
  "metadata_set l me s =
     (case metadata s of None \<Rightarrow> s | Some m \<Rightarrow> s\<lparr>metadata := Some (m(l := Some me))\<rparr>)"

text \<open>\<^verbatim>\<open>options.ttl && options.ttl > 0 ? setTimeout(callback, options.ttl) : 0\<close>.\<close>

definition ttl_timer :: "timer_action \<Rightarrow> int option \<Rightarrow> emitter \<Rightarrow> emitter \<times> nat" where
  "ttl_timer act t s =
     (case t of
        None \<Rightarrow> (s, 0)
      | Some d \<Rightarrow> if d > 0 then setTimeout act d s else (s, 0))"

definition or_default :: "'a option \<Rightarrow> 'a \<Rightarrow> 'a" where
  "or_default v d = (case v of None \<Rightarrow> d | Some x \<Rightarrow> x)"

text \<open>
  \<^verbatim>\<open>addWildcardListener\<close> returns the flags to set. The timer it arms for a
  \<^verbatim>\<open>ttl\<close> has the empty callback \<^verbatim>\<open>() => {}\<close>. The metadata is stored only
  if the emitter already has a metadata table.
\<close>

definition addWildcardListener ::
  "string \<Rightarrow> nat \<Rightarrow> options option \<Rightarrow> emitter \<Rightarrow> error + (emitter \<times> 32 word)" where
  "addWildcardListener eventName f opts s =
     (case compilePattern eventName of
        Inl e \<Rightarrow> Inl e
      | Inr pattern \<Rightarrow>
          (let s1 = s\<lparr>wildcards :=
                        AList.update eventName
                          (or_default (map_of (wildcards s) eventName) [] @ [(f, pattern)])
                          (wildcards s)\<rparr>
           in case opts of
                None \<Rightarrow> Inr (s1, 1)
              | Some opt \<Rightarrow>
                  if metadata s1 = None then Inr (s1, 1)
                  else
                    (let (s2, tid) = ttl_timer NoAction (opt_ttl opt) s1;
                         me = \<lparr>priority = or_default (opt_priority opt) 0,
                               times_m = or_default (opt_times opt) (- 1),
                               timeoutId = tid, original = None,
                               lastAccess = clock s2, filter_m = opt_filter opt\<rparr>
                     in Inr (metadata_set (Fn f) me s2,
                             if opt_filter opt = None then 1 else 1 OR 8))))"

text \<open>
  \<^verbatim>\<open>addListener\<close>, called with a function of the caller's. The test for a
  pattern comes first and returns, so the test \<^verbatim>\<open>eventName === '*'\<close> after it is
  reached only with a name that holds neither \<^verbatim>\<open>*\<close> nor \<^verbatim>\<open>?\<close>. The warning
  about many listeners only writes to the console. When the lookup gives
  \<^verbatim>\<open>Object.prototype\<close>, every branch ends in
  \<^verbatim>\<open>current[current.length] = fn\<close>, which writes the property
  \<^verbatim>\<open>undefined\<close> of that object and leaves the store alone.
\<close>

definition addListener :: "key \<Rightarrow> nat \<Rightarrow> options option \<Rightarrow> emitter \<Rightarrow> error + emitter" where
  "addListener k f opts s =
     (if is_pattern k then
        (case k of
           Str name \<Rightarrow>
             (case addWildcardListener name f opts s of
                Inl e \<Rightarrow> Inl e
              | Inr (s1, fl) \<Rightarrow> Inr (s1\<lparr>flags := flags s1 OR fl\<rparr>))
         | Sym n d \<Rightarrow> Inr s)
      else if k = Str ''*'' then
        Inr (s\<lparr>anyListeners := anyListeners s @ [f], flags := flags s OR HAS_ANY\<rparr>)
      else
        (case opts of
           None \<Rightarrow>
             (case lookup (events s) k s of
                ObjectPrototype \<Rightarrow> Inr (s\<lparr>polluted := Some (Fn f)\<rparr>)
              | Entry current \<Rightarrow>
                  (let (s1, sl) = store_append current (Fn f) s
                   in Inr (s1\<lparr>events := (events s1)(k := Some sl)\<rparr>)))
         | Some opt \<Rightarrow>
             (let s0 = ensure_metadata s;
                  p = or_default (opt_priority opt) 0;
                  n = or_default (opt_times opt) (- 1);
                  finalListener = (if n > 0 then Wrapper (nextWrapper s0) k f else Fn f);
                  originalListener = (if n > 0 then Some (Fn f) else None);
                  s1 = (if n > 0 then s0\<lparr>nextWrapper := Suc (nextWrapper s0)\<rparr> else s0);
                  (s2, tid) = ttl_timer (RemoveListenerAction k finalListener) (opt_ttl opt) s1;
                  me = \<lparr>priority = p, times_m = n, timeoutId = tid,
                        original = originalListener, lastAccess = clock s2,
                        filter_m = opt_filter opt\<rparr>;
                  s3 = (if opt_filter opt = None then s2
                        else s2\<lparr>flags := flags s2 OR HAS_FILTERS\<rparr>);
                  s4 = metadata_set finalListener me s3
              in case lookup (events s4) k s4 of
                   ObjectPrototype \<Rightarrow> Inr (s4\<lparr>polluted := Some finalListener\<rparr>)
                 | Entry current \<Rightarrow>
                     (let (s5, sl) = (if p = 0 then store_append current finalListener s4
                                      else store_insert p current finalListener s4)
                      in Inr (s5\<lparr>events := (events s5)(k := Some sl)\<rparr>)))))"

text \<open>
  \<^verbatim>\<open>once\<close> takes any listener: \<^verbatim>\<open>waitFor\<close> and \<^verbatim>\<open>race\<close> pass their
  handler closures. It has no branch for patterns. Without options the short
  path is taken for a symbol key only.
\<close>

definition once :: "key \<Rightarrow> listener \<Rightarrow> options option \<Rightarrow> emitter \<Rightarrow> emitter" where
  "once k fn opts s =
     (if opts = None \<and> (case k of Str name \<Rightarrow> False | Sym n d \<Rightarrow> True) then
        (case lookup (onceEvents s) k s of
           ObjectPrototype \<Rightarrow> s\<lparr>polluted := Some fn\<rparr>
         | Entry current \<Rightarrow>
             (let (s1, sl) = store_append current fn s
              in s1\<lparr>onceEvents := (onceEvents s1)(k := Some sl)\<rparr>))
      else
        (let s0 = ensure_metadata s;
             p = or_default (case opts of None \<Rightarrow> None | Some opt \<Rightarrow> opt_priority opt) 0;
             (s2, tid) = ttl_timer (RemoveListenerAction k fn)
                           (case opts of None \<Rightarrow> None | Some opt \<Rightarrow> opt_ttl opt) s0;
             flt = (case opts of None \<Rightarrow> None | Some opt \<Rightarrow> opt_filter opt);
             me = \<lparr>priority = p, times_m = - 1, timeoutId = tid, original = None,
                   lastAccess = clock s2, filter_m = flt\<rparr>;
             s3 = (if flt = None then s2 else s2\<lparr>flags := flags s2 OR HAS_FILTERS\<rparr>);
             s4 = metadata_set fn me s3
         in case lookup (onceEvents s4) k s4 of
              ObjectPrototype \<Rightarrow> s4\<lparr>polluted := Some fn\<rparr>
            | Entry current \<Rightarrow>
                (let (s5, sl) = (if p = 0 then store_append current fn s4
                                 else store_insert p current fn s4)
                 in s5\<lparr>onceEvents := (onceEvents s5)(k := Some sl)\<rparr>)))"

definition pipe :: "nat \<Rightarrow> emitter \<Rightarrow> emitter" where
  "pipe target s = s\<lparr>pipes := pipes s @ [target], flags := flags s OR HAS_PIPES\<rparr>"

definition unpipe :: "nat option \<Rightarrow> emitter \<Rightarrow> emitter" where
  "unpipe target s =
     (case target of
        None \<Rightarrow> s\<lparr>pipes := [], flags := flags s AND NOT HAS_PIPES\<rparr>
      | Some t \<Rightarrow>
          (case index_of t (pipes s) of
             None \<Rightarrow> s
           | Some i \<Rightarrow>
               (let ps = remove_at i (pipes s)
                in s\<lparr>pipes := ps,
                     flags := (if ps = [] then flags s AND NOT HAS_PIPES else flags s)\<rparr>)))"


subsection \<open>Calling a listener\<close>

definition stopPropagation :: "emitter \<Rightarrow> emitter" where
  "stopPropagation s = s\<lparr>propagationStopped := True\<rparr>"

text \<open>
  A function of the caller's: the call is recorded, then \<open>\<beta>\<close> says whether
  it sets the flag and whether it throws.
\<close>

definition user_call :: "behaviour \<Rightarrow> nat \<Rightarrow> val list \<Rightarrow> emitter \<Rightarrow> emitter \<times> error option" where
  "user_call \<beta> f args s =
     (let s1 = s\<lparr>trace := trace s @ [Called f args]\<rparr>
      in (if fst (effect \<beta> f args) then stopPropagation s1 else s1, snd (effect \<beta> f args)))"

text \<open>
  \<^verbatim>\<open>cleanup\<close> of \<^verbatim>\<open>race\<close>: the timer is cancelled, the handlers are removed in
  the order of the map, then the map is cleared. An error thrown by
  \<^verbatim>\<open>removeListener\<close> ends it where it stands.
\<close>

fun remove_each :: "(key \<times> listener) list \<Rightarrow> emitter \<Rightarrow> emitter \<times> error option" where
  "remove_each [] s = (s, None)"
| "remove_each (kh # rest) s =
     (case removeListener (Some (fst kh)) (Some (snd kh)) s of
        Inl e \<Rightarrow> (s, Some e)
      | Inr s1 \<Rightarrow> remove_each rest s1)"

definition race_cleanup :: "nat \<Rightarrow> emitter \<Rightarrow> emitter \<times> error option" where
  "race_cleanup p s =
     (let s1 = (if waitTimer s p \<noteq> 0 then clearTimeout (waitTimer s p) s else s)
      in case remove_each (raceHandlers s1 p) s1 of
           (s2, Some e) \<Rightarrow> (s2, Some e)
         | (s2, None) \<Rightarrow> (s2\<lparr>raceHandlers := (raceHandlers s2)(p := [])\<rparr>, None))"

text \<open>
  The wrapper of \<^verbatim>\<open>addListener\<close> reads its own metadata through
  \<^verbatim>\<open>self.metadata!.get\<close>, which throws a TypeError when the table is
  \<^verbatim>\<open>undefined\<close>; it counts down, removes itself at zero and calls the
  original. The handler of \<^verbatim>\<open>waitFor\<close> cancels its timer, if it has one, and
  resolves its promise. A handler of \<^verbatim>\<open>race\<close> does nothing once the race is
  resolved; the first one sets \<^verbatim>\<open>resolved\<close>, runs \<^verbatim>\<open>cleanup\<close> and resolves
  the promise with its event name and the arguments.
\<close>

fun call :: "behaviour \<Rightarrow> listener \<Rightarrow> val list \<Rightarrow> emitter \<Rightarrow> emitter \<times> error option" where
  "call \<beta> (Fn f) args s = user_call \<beta> f args s"
| "call \<beta> (Wrapper w k f) args s =
     (case metadata s of
        None \<Rightarrow> (s, Some TypeError)
      | Some m \<Rightarrow>
          (case m (Wrapper w k f) of
             None \<Rightarrow> user_call \<beta> f args s
           | Some me \<Rightarrow>
               (let s' = s\<lparr>metadata :=
                             Some (m(Wrapper w k f := Some (me\<lparr>times_m := times_m me - 1\<rparr>)))\<rparr>
                in if times_m me - 1 = 0
                   then (case removeListener (Some k) (Some (Wrapper w k f)) s' of
                           Inl e \<Rightarrow> (s', Some e)
                         | Inr s1 \<Rightarrow> user_call \<beta> f args s1)
                   else user_call \<beta> f args s')))"
| "call \<beta> (WaitHandler p) args s =
     (let s1 = (if waitTimer s p \<noteq> 0 then clearTimeout (waitTimer s p) s else s)
      in (resolve p args s1, None))"
| "call \<beta> (RaceHandler p i k) args s =
     (if raceResolved s p then (s, None)
      else (case race_cleanup p (s\<lparr>raceResolved := (raceResolved s)(p := True)\<rparr>) of
              (s1, Some e) \<Rightarrow> (s1, Some e)
            | (s1, None) \<Rightarrow> (settle p (Won k args) s1, None)))"
| "call \<beta> (Builtin name) args s = (s, if builtin_returns name then None else Some TypeError)"

text \<open>
  \<^verbatim>\<open>for (let i = 0; i < n; i++) l[i](...)\<close> on the array at address \<open>a\<close>, with
  \<open>n\<close> read before the loop: \<open>i\<close> is the index, the fourth argument the number
  of rounds left. Reading past the end of the array gives \<^verbatim>\<open>undefined\<close>, and
  calling that throws a TypeError.
\<close>

fun invoke_array :: "behaviour \<Rightarrow> nat \<Rightarrow> val list \<Rightarrow> nat \<Rightarrow> nat \<Rightarrow> emitter \<Rightarrow> emitter \<times> error option" where
  "invoke_array \<beta> a args i 0 s = (s, None)"
| "invoke_array \<beta> a args i (Suc r) s =
     (if i < length (heap s a) then
        (case call \<beta> (heap s a ! i) args s of
           (s1, Some e) \<Rightarrow> (s1, Some e)
         | (s1, None) \<Rightarrow> invoke_array \<beta> a args (Suc i) r s1)
      else (s, Some TypeError))"

subsection \<open>emitExtras (helpers/index.ts)\<close>

text \<open>
  \<open>stopped\<close> is the function's local copy of the flag it was passed; nothing
  in the function assigns to it. Each loop is ``call, then return if
  \<open>stopped\<close>'': the result tells whether the loop returned, or the error
  that a call threw.
\<close>

fun run_all ::
  "('a \<Rightarrow> emitter \<Rightarrow> emitter \<times> error option) \<Rightarrow> bool \<Rightarrow> 'a list \<Rightarrow> emitter \<Rightarrow> emitter \<times> (error + bool)" where
  "run_all act stopped [] s = (s, Inr False)"
| "run_all act stopped (x # xs) s =
     (case act x s of
        (s1, Some e) \<Rightarrow> (s1, Inl e)
      | (s1, None) \<Rightarrow> if stopped then (s1, Inr True) else run_all act stopped xs s1)"

fun wildcard_loop ::
  "behaviour \<Rightarrow> string \<Rightarrow> val list \<Rightarrow> nat \<Rightarrow> 32 word \<Rightarrow> bool \<Rightarrow> wentry list \<Rightarrow> emitter \<Rightarrow> emitter \<times> (error + bool)" where
  "wildcard_loop \<beta> name args argCount fl stopped [] s = (s, Inr False)"
| "wildcard_loop \<beta> name args argCount fl stopped (e # es) s =
     (if \<not> matches (snd e) name then wildcard_loop \<beta> name args argCount fl stopped es s
      else
        (case (if fl AND 8 \<noteq> 0 then checkFilter (meta_get s (Fn (fst e))) args else Inr True) of
           Inl err \<Rightarrow> (s, Inl err)
         | Inr ok \<Rightarrow>
             if \<not> ok then wildcard_loop \<beta> name args argCount fl stopped es s
             else
               (case user_call \<beta> (fst e) (take argCount args) s of
                  (s1, Some err) \<Rightarrow> (s1, Inl err)
                | (s1, None) \<Rightarrow>
                    if stopped then (s1, Inr True)
                    else wildcard_loop \<beta> name args argCount fl stopped es s1)))"

definition key_val :: "key \<Rightarrow> val" where
  "key_val k = (case k of Str name \<Rightarrow> VStr name | Sym n d \<Rightarrow> VSym n d)"

definition forward ::
  "behaviour \<Rightarrow> key \<Rightarrow> val list \<Rightarrow> nat \<Rightarrow> emitter \<Rightarrow> emitter \<times> error option" where
  "forward \<beta> k args target s =
     (s\<lparr>trace := trace s @ [Forwarded target k args]\<rparr>, target_throws \<beta> target k args)"

text \<open>
  The call passes \<open>args\<close> and \<open>argCount\<close>; the listeners and the
  targets get \<^verbatim>\<open>args.slice(0, argCount)\<close>, the filters get \<open>args\<close>. The
  entries of all patterns are walked in the order of the \<^verbatim>\<open>Map\<close>. The
  result is the field \<^verbatim>\<open>propagationStopped\<close> of the returned object.
\<close>

definition emitExtras ::
  "behaviour \<Rightarrow> key \<Rightarrow> val list \<Rightarrow> nat \<Rightarrow> 32 word \<Rightarrow> bool \<Rightarrow> emitter \<Rightarrow> emitter \<times> (error + bool)" where
  "emitExtras \<beta> eventName args argCount fl stopped s =
     (case (case eventName of
              Str name \<Rightarrow>
                if fl AND 1 \<noteq> 0
                then wildcard_loop \<beta> name args argCount fl stopped
                       (concat (map snd (wildcards s))) s
                else (s, Inr False)
            | Sym n d \<Rightarrow> (s, Inr False)) of
        (s1, Inl e) \<Rightarrow> (s1, Inl e)
      | (s1, Inr r1) \<Rightarrow>
          if r1 \<or> stopped then (s1, Inr True)
          else
            (case (if fl AND 4 \<noteq> 0
                   then run_all (\<lambda>l. user_call \<beta> l (key_val eventName # take argCount args))
                          stopped (anyListeners s1) s1
                   else (s1, Inr False)) of
               (s2, Inl e) \<Rightarrow> (s2, Inl e)
             | (s2, Inr r2) \<Rightarrow>
                 if r2 \<or> stopped then (s2, Inr True)
                 else
                   (case (if fl AND 2 \<noteq> 0
                          then run_all (forward \<beta> eventName (take argCount args))
                                 stopped (pipes s2) s2
                          else (s2, Inr False)) of
                      (s3, Inl e) \<Rightarrow> (s3, Inl e)
                    | (s3, Inr r3) \<Rightarrow> if r3 then (s3, Inr True) else (s3, Inr stopped))))"

subsection \<open>emit\<close>

text \<open>
  \<^verbatim>\<open>emit(eventName, a, b, c, d, e)\<close> with \<open>al\<close> further arguments. The
  regular and the once listeners are called with all of them (the
  \<^verbatim>\<open>default\<close> case copies \<^verbatim>\<open>arguments\<close>); the filter checks and
  \<^verbatim>\<open>emitExtras\<close> get \<^verbatim>\<open>[a, b, c, d, e].slice(0, al)\<close>, the first five at
  most.
\<close>

definition named_args :: "val list \<Rightarrow> val list" where
  "named_args args = take 5 args"

text \<open>The once listeners of the key: detached first, then called.\<close>

definition detach_and_call ::
  "behaviour \<Rightarrow> key \<Rightarrow> slot \<Rightarrow> val list \<Rightarrow> emitter \<Rightarrow> emitter \<times> error option" where
  "detach_and_call \<beta> k ol args s =
     (case ol of
        Single o1 \<Rightarrow>
          call \<beta> o1 args ((cleanupListener o1 s)\<lparr>onceEvents := (onceEvents s)(k := None)\<rparr>)
      | Arr a \<Rightarrow>
          (let n = length (heap s a);
               s1 = fold cleanupListener (heap s a) s
           in invoke_array \<beta> a args 0 n (s1\<lparr>onceEvents := (onceEvents s1)(k := None)\<rparr>)))"

definition run_extras :: "behaviour \<Rightarrow> key \<Rightarrow> val list \<Rightarrow> emitter \<Rightarrow> emitter \<times> error option" where
  "run_extras \<beta> k args s =
     (if flags s \<noteq> 0 then
        (case emitExtras \<beta> k (named_args args) (length args) (flags s)
                (propagationStopped s) s of
           (s1, Inl e) \<Rightarrow> (s1, Some e)
         | (s1, Inr st) \<Rightarrow> (s1\<lparr>propagationStopped := st\<rparr>, None))
      else (s, None))"

text \<open>The end of both paths of \<^verbatim>\<open>emit\<close>, after the once listeners.\<close>

definition finish :: "behaviour \<Rightarrow> key \<Rightarrow> val list \<Rightarrow> emitter \<Rightarrow> emitter \<times> (error + bool)" where
  "finish \<beta> k args s =
     (if propagationStopped s then (s, Inr True)
      else (case run_extras \<beta> k args s of
              (s1, Some e) \<Rightarrow> (s1, Inl e)
            | (s1, None) \<Rightarrow> (s1, Inr True)))"

text \<open>
  The first branch is the short path for a key whose lookup gives a function.
  In the other branch the lookup gives nothing, an array or
  \<^verbatim>\<open>Object.prototype\<close>; the loops over the latter read its \<^verbatim>\<open>length\<close>,
  which is \<^verbatim>\<open>undefined\<close>, and do not run.
\<close>

definition emit :: "behaviour \<Rightarrow> key \<Rightarrow> val list \<Rightarrow> emitter \<Rightarrow> emitter \<times> (error + bool)" where
  "emit \<beta> k args s =
     (case lookup (events s) k s of
        Entry (Some (Single l)) \<Rightarrow>
          (case (if flags s AND HAS_FILTERS \<noteq> 0
                 then (case checkFilter (meta_get s l) (named_args args) of
                         Inl e \<Rightarrow> (s, Some e)
                       | Inr ok \<Rightarrow> if ok then call \<beta> l args s else (s, None))
                 else call \<beta> l args s) of
             (s1, Some e) \<Rightarrow> (s1, Inl e)
           | (s1, None) \<Rightarrow>
               if propagationStopped s1 then (s1, Inr True)
               else
                 (case (case lookup (onceEvents s1) k s1 of
                          Entry (Some (Single o1)) \<Rightarrow>
                            (case (if flags s1 AND HAS_FILTERS \<noteq> 0
                                   then checkFilter (meta_get s1 o1) (named_args args)
                                   else Inr True) of
                               Inl e \<Rightarrow> (s1, Some e)
                             | Inr ok \<Rightarrow>
                                 if ok then detach_and_call \<beta> k (Single o1) args s1
                                 else (s1, None))
                        | Entry (Some (Arr a)) \<Rightarrow> detach_and_call \<beta> k (Arr a) args s1
                        | _ \<Rightarrow> (s1, None)) of
                    (s2, Some e) \<Rightarrow> (s2, Inl e)
                  | (s2, None) \<Rightarrow> finish \<beta> k args s2))
      | l \<Rightarrow>
          (let ol = lookup (onceEvents s) k s
           in if l = Entry None \<and> ol = Entry None \<and> anyListeners s = [] \<and> pipes s = []
              then (s, Inr False)
              else
                (case (case l of
                         Entry (Some (Arr a)) \<Rightarrow> invoke_array \<beta> a args 0 (length (heap s a)) s
                       | _ \<Rightarrow> (s, None)) of
                   (s1, Some e) \<Rightarrow> (s1, Inl e)
                 | (s1, None) \<Rightarrow>
                     (case (case ol of
                              Entry (Some sl) \<Rightarrow> detach_and_call \<beta> k sl args s1
                            | _ \<Rightarrow> (s1, None)) of
                        (s2, Some e) \<Rightarrow> (s2, Inl e)
                      | (s2, None) \<Rightarrow> finish \<beta> k args s2))))"


subsection \<open>listeners, listenerCount, emitAsync\<close>

text \<open>
  Both look the compiled pattern up under the pattern text. A pattern in the
  \<^verbatim>\<open>Map\<close> has compiled when it was registered, so the error branch below
  stands for nothing that can happen after a registration.
\<close>

definition pattern_matches :: "string \<Rightarrow> string \<Rightarrow> bool" where
  "pattern_matches pattern name =
     (case compilePattern pattern of Inl e \<Rightarrow> False | Inr rx \<Rightarrow> matches rx name)"

definition matching_wildcards :: "emitter \<Rightarrow> key \<Rightarrow> wentry list" where
  "matching_wildcards s k =
     (case k of
        Sym n d \<Rightarrow> []
      | Str name \<Rightarrow> concat (map snd (filter (\<lambda>pe. pattern_matches (fst pe) name) (wildcards s))))"

text \<open>
  \<^verbatim>\<open>listeners\<close> pushes a function and walks anything else with
  \<^verbatim>\<open>forEach\<close>, which \<^verbatim>\<open>Object.prototype\<close> does not have: a TypeError.
\<close>

definition listeners :: "key \<Rightarrow> emitter \<Rightarrow> error + listener list" where
  "listeners k s =
     (case lookup (events s) k s of
        ObjectPrototype \<Rightarrow> Inl TypeError
      | Entry r \<Rightarrow>
          (case lookup (onceEvents s) k s of
             ObjectPrototype \<Rightarrow> Inl TypeError
           | Entry ol \<Rightarrow>
               Inr (slot_list s r @ slot_list s ol
                    @ map (\<lambda>e. Fn (fst e)) (matching_wildcards s k))))"

text \<open>
  \<^verbatim>\<open>listenerCount(eventName)\<close> for an event name; without one, or with the
  empty string, the source sums over all keys, which the model leaves out
  (\<open>None\<close>). For \<^verbatim>\<open>Object.prototype\<close> it adds the \<^verbatim>\<open>length\<close>, which is
  \<^verbatim>\<open>undefined\<close>, and the sum is \<^verbatim>\<open>NaN\<close>.
\<close>

datatype count = Count nat | NaN

definition listenerCount :: "key \<Rightarrow> emitter \<Rightarrow> count option" where
  "listenerCount k s =
     (if is_falsy k then None
      else
        (case lookup (events s) k s of
           ObjectPrototype \<Rightarrow> Some NaN
         | Entry r \<Rightarrow>
             (case lookup (onceEvents s) k s of
                ObjectPrototype \<Rightarrow> Some NaN
              | Entry ol \<Rightarrow>
                  Some (Count (length (slot_list s r) + length (slot_list s ol)
                               + length (matching_wildcards s k))))))"

text \<open>
  \<^verbatim>\<open>emitAsync\<close> up to the point where it waits for the promises that
  listeners returned; a function of the caller's returns none here. An error
  thrown by a listener is caught and logged. An error thrown by
  \<^verbatim>\<open>listeners\<close> rejects the promise that \<^verbatim>\<open>emitAsync\<close> returns.
\<close>

definition call_caught :: "behaviour \<Rightarrow> val list \<Rightarrow> listener \<Rightarrow> emitter \<Rightarrow> emitter" where
  "call_caught \<beta> args l s =
     (case call \<beta> l args s of
        (s1, None) \<Rightarrow> s1
      | (s1, Some e) \<Rightarrow> s1\<lparr>trace := trace s1 @ [Logged e]\<rparr>)"

definition emitAsync :: "behaviour \<Rightarrow> key \<Rightarrow> val list \<Rightarrow> emitter \<Rightarrow> emitter \<times> (error + bool)" where
  "emitAsync \<beta> k args s =
     (case listeners k s of
        Inl e \<Rightarrow> (s, Inl e)
      | Inr ls \<Rightarrow>
          if ls = [] \<and> anyListeners s = [] \<and> pipes s = [] \<and> wildcards s = []
          then (s, Inr False)
          else (fold (call_caught \<beta> args) ls s, Inr True))"

subsection \<open>waitFor, race and the passing of time\<close>

definition key_string :: "key \<Rightarrow> string" where
  "key_string k = (case k of Str name \<Rightarrow> name | Sym n d \<Rightarrow> ''Symbol('' @ d @ '')'')"

definition digit :: "nat \<Rightarrow> char" where
  "digit n = char_of (48 + n)"

text \<open>
  The decimal digits of a number, as \<^verbatim>\<open>${timeout}\<close> prints them; the first
  argument bounds the number of digits.
\<close>

fun digits :: "nat \<Rightarrow> nat \<Rightarrow> string" where
  "digits 0 n = []"
| "digits (Suc k) n =
     (if n < 10 then [digit n] else digits k (n div 10) @ [digit (n mod 10)])"

definition show_nat :: "nat \<Rightarrow> string" where
  "show_nat n = digits (Suc n) n"

definition show_int :: "int \<Rightarrow> string" where
  "show_int i = (if i < 0 then CHR ''-'' # show_nat (nat (- i)) else show_nat (nat i))"

definition timeout_message :: "key \<Rightarrow> int \<Rightarrow> string" where
  "timeout_message k t =
     ''Timeout waiting for event '' @ [CHR 0x22] @ key_string k @ [CHR 0x22] @ '' after ''
       @ show_int t @ ''ms''"

text \<open>
  \<^verbatim>\<open>waitFor(eventName, timeout)\<close> returns a promise, here its number. A
  \<^verbatim>\<open>timeout\<close> that is \<^verbatim>\<open>undefined\<close> or 0 arms no timer.
\<close>

definition waitFor :: "key \<Rightarrow> int option \<Rightarrow> emitter \<Rightarrow> emitter \<times> nat" where
  "waitFor k timeout s =
     (let p = nextWait s;
          s0 = s\<lparr>nextWait := Suc p, waitTimer := (waitTimer s)(p := 0),
                 promises := (promises s)(p := Pending)\<rparr>;
          s1 = once k (WaitHandler p) None s0
      in case timeout of
           None \<Rightarrow> (s1, p)
         | Some t \<Rightarrow>
             if t = 0 then (s1, p)
             else (let (s2, tid) = setTimeout (WaitForTimeout p k t) t s1
                   in (s2\<lparr>waitTimer := (waitTimer s2)(p := tid)\<rparr>, p)))"

text \<open>
  \<^verbatim>\<open>race(events, timeout)\<close>: one handler per entry of the list, stored in
  the \<^verbatim>\<open>handlers\<close> map under its event name (a name that occurs twice keeps
  its place and takes the later handler) and registered with \<^verbatim>\<open>once\<close>.
\<close>

fun race_register :: "nat \<Rightarrow> nat \<Rightarrow> key list \<Rightarrow> emitter \<Rightarrow> emitter" where
  "race_register p i [] s = s"
| "race_register p i (k # ks) s =
     (let h = RaceHandler p i k;
          s1 = s\<lparr>raceHandlers := (raceHandlers s)(p := AList.update k h (raceHandlers s p))\<rparr>
      in race_register p (Suc i) ks (once k h None s1))"

definition race :: "key list \<Rightarrow> int option \<Rightarrow> emitter \<Rightarrow> emitter \<times> nat" where
  "race ks timeout s =
     (let p = nextWait s;
          s0 = s\<lparr>nextWait := Suc p, waitTimer := (waitTimer s)(p := 0),
                 promises := (promises s)(p := Pending),
                 raceHandlers := (raceHandlers s)(p := []),
                 raceResolved := (raceResolved s)(p := False)\<rparr>;
          s1 = race_register p 0 ks s0
      in case timeout of
           None \<Rightarrow> (s1, p)
         | Some t \<Rightarrow>
             if t = 0 then (s1, p)
             else (let (s2, tid) = setTimeout (RaceTimeout p ks t) t s1
                   in (s2\<lparr>waitTimer := (waitTimer s2)(p := tid)\<rparr>, p)))"

fun join :: "string \<Rightarrow> string list \<Rightarrow> string" where
  "join sep [] = []"
| "join sep [x] = x"
| "join sep (x # y # ys) = x @ sep @ join sep (y # ys)"

definition race_message :: "key list \<Rightarrow> int \<Rightarrow> string" where
  "race_message ks t =
     ''Timeout: none of the events ['' @ join '', '' (map key_string ks)
       @ ''] occurred within '' @ show_int t @ ''ms''"

text \<open>
  The callbacks that the repository hands to \<^verbatim>\<open>setTimeout\<close>. An error that
  \<^verbatim>\<open>removeListener\<close> throws in one of them ends the callback and goes to the
  platform.
\<close>

definition uncaught :: "error \<Rightarrow> emitter \<Rightarrow> emitter" where
  "uncaught e s = s\<lparr>trace := trace s @ [Uncaught e]\<rparr>"

fun fire :: "timer_action \<Rightarrow> emitter \<Rightarrow> emitter" where
  "fire (RemoveListenerAction k l) s =
     (case removeListener (Some k) (Some l) s of Inl e \<Rightarrow> uncaught e s | Inr s1 \<Rightarrow> s1)"
| "fire NoAction s = s"
| "fire (WaitForTimeout p k t) s =
     (case removeListener (Some k) (Some (WaitHandler p)) s of
        Inl e \<Rightarrow> uncaught e s
      | Inr s1 \<Rightarrow> reject p (timeout_message k t) s1)"
| "fire (RaceTimeout p ks t) s =
     (if raceResolved s p then s
      else (case race_cleanup p (s\<lparr>raceResolved := (raceResolved s)(p := True)\<rparr>) of
              (s1, Some e) \<Rightarrow> uncaught e s1
            | (s1, None) \<Rightarrow> reject p (race_message ks t) s1))"

text \<open>
  Modelled from the spec: the timer primitive again. When the clock has moved
  on, the timers that are due run in the order of their due times (creation
  order among equals); one that an earlier callback cancelled does not run.
\<close>

definition fire_if_pending :: "nat \<times> nat \<times> timer_action \<Rightarrow> emitter \<Rightarrow> emitter" where
  "fire_if_pending t s =
     (if fst t \<in> fst ` set (timers s)
      then fire (snd (snd t)) (clearTimeout (fst t) s)
      else s)"

definition advance :: "nat \<Rightarrow> emitter \<Rightarrow> emitter" where
  "advance d s =
     (let s1 = s\<lparr>clock := clock s + d\<rparr>;
          due = sort_key (\<lambda>t. fst (snd t)) (filter (\<lambda>t. fst (snd t) \<le> clock s1) (timers s1))
      in fold fire_if_pending due s1)"


section \<open>Inputs of the examples\<close>

text \<open>
  Behaviours in which no target throws. In the first three no function throws:
  none stops propagation; function 1 stops it when called with the single
  argument \<^verbatim>\<open>'stop'\<close>; function 1 stops it on every call. In the last one
  function 1 throws the exception 7.
\<close>

definition quiet :: behaviour where
  "quiet = \<lparr>effect = (\<lambda>f args. (False, None)), target_throws = (\<lambda>t k args. None)\<rparr>"

definition stops_on_stop :: behaviour where
  "stops_on_stop =
     \<lparr>effect = (\<lambda>f args. (f = 1 \<and> args = [VStr ''stop''], None)),
      target_throws = (\<lambda>t k args. None)\<rparr>"

definition first_stops :: behaviour where
  "first_stops = \<lparr>effect = (\<lambda>f args. (f = 1, None)), target_throws = (\<lambda>t k args. None)\<rparr>"

definition first_throws :: behaviour where
  "first_throws =
     \<lparr>effect = (\<lambda>f args. (False, if f = 1 then Some (Raised 7) else None)),
      target_throws = (\<lambda>t k args. None)\<rparr>"

definition and_then :: "error + emitter \<Rightarrow> (emitter \<Rightarrow> error + emitter) \<Rightarrow> error + emitter" where
  "and_then r f = (case r of Inl e \<Rightarrow> Inl e | Inr s \<Rightarrow> f s)"

definition with_priority :: "int \<Rightarrow> options" where
  "with_priority p =
     \<lparr>opt_ttl = None, opt_times = None, opt_priority = Some p, opt_filter = None\<rparr>"

definition with_times :: "int \<Rightarrow> options" where
  "with_times n =
     \<lparr>opt_ttl = None, opt_times = Some n, opt_priority = None, opt_filter = None\<rparr>"

definition with_ttl :: "int \<Rightarrow> options" where
  "with_ttl d =
     \<lparr>opt_ttl = Some d, opt_times = None, opt_priority = None, opt_filter = None\<rparr>"



section \<open>Notions used in the statements\<close>

text \<open>
  A key under which the stores inherit nothing: a symbol, or a string that is
  neither the name of a member of \<^verbatim>\<open>Object.prototype\<close> nor \<^verbatim>\<open>undefined\<close>, the
  property that a registration for \<^verbatim>\<open>__proto__\<close> writes.
\<close>

definition ordinary_key :: "key \<Rightarrow> bool" where
  "ordinary_key k =
     (case k of
        Sym n d \<Rightarrow> True
      | Str name \<Rightarrow> name \<notin> set (''__proto__'' # ''undefined'' # object_prototype_methods))"

text \<open>
  The listeners that remove listeners when they are called: the counting
  wrapper that a registration with \<^verbatim>\<open>times\<close> puts in place of the listener,
  and the handlers of \<^verbatim>\<open>race\<close>.
\<close>

fun self_removing :: "listener \<Rightarrow> bool" where
  "self_removing (Wrapper w k f) = True"
| "self_removing (RaceHandler p i k) = True"
| "self_removing (Fn f) = False"
| "self_removing (WaitHandler p) = False"
| "self_removing (Builtin name) = False"

text \<open>
  For a listener of another kind: what a call of it with given arguments
  throws, and what the call leaves in the trace.
\<close>

fun throws :: "behaviour \<Rightarrow> val list \<Rightarrow> listener \<Rightarrow> error option" where
  "throws \<beta> args (Fn f) = snd (effect \<beta> f args)"
| "throws \<beta> args (Builtin name) = (if builtin_returns name then None else Some TypeError)"
| "throws \<beta> args (WaitHandler p) = None"
| "throws \<beta> args (Wrapper w k f) = None"
| "throws \<beta> args (RaceHandler p i k) = None"

fun called :: "val list \<Rightarrow> listener \<Rightarrow> event list" where
  "called args (Fn f) = [Called f args]"
| "called args (Wrapper w k f) = []"
| "called args (WaitHandler p) = []"
| "called args (RaceHandler p i k) = []"
| "called args (Builtin name) = []"

text \<open>
  What \<^verbatim>\<open>emitAsync\<close> leaves in the trace for a list of such listeners: the
  call of each function of the caller's, and after it the error that the
  listener threw, logged.
\<close>

fun calls_of :: "behaviour \<Rightarrow> val list \<Rightarrow> listener list \<Rightarrow> event list" where
  "calls_of \<beta> args [] = []"
| "calls_of \<beta> args (l # ls) =
     called args l
       @ (case throws \<beta> args l of None \<Rightarrow> [] | Some e \<Rightarrow> [Logged e])
       @ calls_of \<beta> args ls"

text \<open>
  Two states with the same registrations: stores, arrays, patterns, metadata,
  catch-all listeners, pipes, flags and inherited entries.
\<close>

definition same_registry :: "emitter \<Rightarrow> emitter \<Rightarrow> bool" where
  "same_registry s s' =
     (events s' = events s \<and> onceEvents s' = onceEvents s \<and> wildcards s' = wildcards s
      \<and> heap s' = heap s \<and> metadata s' = metadata s \<and> anyListeners s' = anyListeners s
      \<and> pipes s' = pipes s \<and> flags s' = flags s \<and> polluted s' = polluted s)"

text \<open>
  A function of the caller's that does not throw when it is called with the
  given arguments; a listener that neither removes listeners nor throws.
\<close>

definition returns :: "behaviour \<Rightarrow> val list \<Rightarrow> nat \<Rightarrow> bool" where
  "returns \<beta> args f = (snd (effect \<beta> f args) = None)"

definition calm :: "behaviour \<Rightarrow> val list \<Rightarrow> listener \<Rightarrow> bool" where
  "calm \<beta> args l = (\<not> self_removing l \<and> throws \<beta> args l = None)"

text \<open>
  The order of an array of listeners, on plain lists. \<^verbatim>\<open>place\<close> is the loop of the
  nonzero-priority branch; \<^verbatim>\<open>enqueue\<close> is a registration as \<^verbatim>\<open>addListener\<close> does it: a listener of
  priority 0 goes to the end, the first listener of a key is written twice
  when its priority is not 0. \<^verbatim>\<open>enqueue_once\<close> is the same without the repetition.
\<close>

fun place :: "('a \<Rightarrow> int) \<Rightarrow> 'a \<Rightarrow> 'a list \<Rightarrow> 'a list" where
  "place pr x [] = [x]"
| "place pr x (y # ys) = (if pr x > pr y then x # y # ys else y # place pr x ys)"

definition enqueue :: "('a \<Rightarrow> int) \<Rightarrow> 'a \<Rightarrow> 'a list \<Rightarrow> 'a list" where
  "enqueue pr x xs = (if pr x = 0 then xs @ [x] else if xs = [] then [x, x] else place pr x xs)"

definition enqueue_once :: "('a \<Rightarrow> int) \<Rightarrow> 'a \<Rightarrow> 'a list \<Rightarrow> 'a list" where
  "enqueue_once pr x xs = (if pr x = 0 then xs @ [x] else place pr x xs)"

text \<open>
  A sequence of priorities in which no 0 comes after a negative number.
\<close>

fun zero_never_after_negative :: "int list \<Rightarrow> bool" where
  "zero_never_after_negative [] = True"
| "zero_never_after_negative (p # ps) = ((0 \<le> p \<or> 0 \<notin> set ps) \<and> zero_never_after_negative ps)"

text \<open>
  A registration is a function of the caller's with its options; its priority
  is 0 when none is given. Plain options give no positive \<^verbatim>\<open>times\<close> and no filter,
  so that the listener itself is stored. \<^verbatim>\<open>add_all\<close> registers a list of them in
  turn and stops at the first error.
\<close>

definition reg_priority :: "nat \<times> options option \<Rightarrow> int" where
  "reg_priority r = (case snd r of None \<Rightarrow> 0 | Some opt \<Rightarrow> or_default (opt_priority opt) 0)"

definition plain_options :: "options option \<Rightarrow> bool" where
  "plain_options opts =
     (case opts of
        None \<Rightarrow> True
      | Some opt \<Rightarrow> or_default (opt_times opt) (- 1) \<le> 0 \<and> opt_filter opt = None)"

fun add_all :: "key \<Rightarrow> (nat \<times> options option) list \<Rightarrow> emitter \<Rightarrow> error + emitter" where
  "add_all k [] s = Inr s"
| "add_all k (r # rs) s =
     (case addListener k (fst r) (snd r) s of Inl e \<Rightarrow> Inl e | Inr s1 \<Rightarrow> add_all k rs s1)"

text \<open>
  The state of an emitter that holds, for the key, exactly the registrations
  of a list in the order of the list, with their priorities in the metadata,
  and nothing else that \<^verbatim>\<open>emit\<close> looks at.
\<close>

definition registered :: "key \<Rightarrow> (nat \<times> options option) list \<Rightarrow> emitter \<Rightarrow> bool" where
  "registered k L s =
     (slot_list s (events s k) = map (\<lambda>r. Fn (fst r)) L
      \<and> (events s k = None) = (L = [])
      \<and> (\<forall>r\<in>set L. priority_of s (Fn (fst r)) = reg_priority r)
      \<and> (\<forall>f. f \<notin> fst ` set L \<longrightarrow> meta_get s (Fn f) = None)
      \<and> onceEvents s k = None \<and> flags s = 0 \<and> anyListeners s = [] \<and> pipes s = []
      \<and> trace s = [])"

definition same_rest :: "emitter \<Rightarrow> emitter \<Rightarrow> bool" where
  "same_rest s s' =
     (onceEvents s' = onceEvents s \<and> flags s' = flags s \<and> anyListeners s' = anyListeners s
      \<and> pipes s' = pipes s \<and> trace s' = trace s)"











text \<open>
  The definitions of the model, for evaluating it on a given input by
  rewriting. A \<^theory_text>\<open>let\<close> is unfolded only after the bound value has been
  computed (\<open>let_weak_cong\<close>).
\<close>

lemmas emitter_defs =
  classify_def cons_item_def RegExp_def compilePattern_def pattern_test_def
  HAS_WILDCARDS_def HAS_PIPES_def HAS_ANY_def HAS_FILTERS_def new_emitter_def
  setTimeout_def clearTimeout_def resolve_def reject_def meta_get_def
  cleanupListener_def checkFilter_def priority_of_def remove_at_def slot_list_def
  alloc_def store_append_def store_insert_def splice_out_def is_falsy_def
  clear_store_def removeAllForEvent_def removeAllListeners_def remove_wildcard_def
  wraps_def remove_regular_def remove_once_def removeListener_def is_pattern_def
  ensure_metadata_def metadata_set_def ttl_timer_def or_default_def
  addWildcardListener_def addListener_def once_def pipe_def unpipe_def
  stopPropagation_def user_call_def key_val_def forward_def emitExtras_def
  named_args_def detach_and_call_def run_extras_def emit_def pattern_matches_def
  matching_wildcards_def listeners_def listenerCount_def call_caught_def emitAsync_def
  waitFor_def fire_if_pending_def advance_def quiet_def stops_on_stop_def
  first_stops_def and_then_def with_priority_def with_times_def with_ttl_def
  object_prototype_methods_def builtin_returns_def inherited_def lookup_def entry_def
  settle_def finish_def race_cleanup_def race_def uncaught_def first_throws_def



section \<open>Auxiliary facts\<close>

subsection \<open>Lookups\<close>

lemma lookup_ordinary: "ordinary_key k \<Longrightarrow> lookup store k s = Entry (store k)"
  by (auto simp: ordinary_key_def lookup_def inherited_def split: key.splits option.splits)

lemma lookup_polluted: "polluted s' = polluted s \<Longrightarrow> lookup store k s' = lookup store k s"
  by (auto simp: lookup_def inherited_def split: key.splits option.splits)

lemma slot_list_heap: "heap s' = heap s \<Longrightarrow> slot_list s' sl = slot_list s sl"
  by (simp add: slot_list_def split: option.splits slot.splits)

lemma priority_of_metadata: "metadata s' = metadata s \<Longrightarrow> priority_of s' l = priority_of s l"
  by (simp add: priority_of_def meta_get_def)

lemma meta_get_metadata: "metadata s' = metadata s \<Longrightarrow> meta_get s' l = meta_get s l"
  by (simp add: meta_get_def)

subsection \<open>Calls that leave the registrations alone\<close>

lemma same_registry_refl: "same_registry s s"
  by (simp add: same_registry_def)

lemma same_registry_trans: "same_registry s s1 \<Longrightarrow> same_registry s1 s2 \<Longrightarrow> same_registry s s2"
  by (simp add: same_registry_def)

lemma same_registry_listeners:
  assumes "same_registry s s'"
  shows "listeners k s' = listeners k s"
proof -
  from assms have p: "polluted s' = polluted s" and h: "heap s' = heap s"
    and e: "events s' = events s" "onceEvents s' = onceEvents s" "wildcards s' = wildcards s"
    by (simp_all add: same_registry_def)
  have m: "matching_wildcards s' k = matching_wildcards s k"
    using e by (simp add: matching_wildcards_def split: key.splits)
  show ?thesis
    unfolding listeners_def lookup_polluted [OF p] e m
    by (simp add: slot_list_heap [OF h] split: found.splits)
qed

lemma same_registry_listenerCount:
  assumes "same_registry s s'"
  shows "listenerCount k s' = listenerCount k s"
proof -
  from assms have p: "polluted s' = polluted s" and h: "heap s' = heap s"
    and e: "events s' = events s" "onceEvents s' = onceEvents s" "wildcards s' = wildcards s"
    by (simp_all add: same_registry_def)
  have m: "matching_wildcards s' k = matching_wildcards s k"
    using e by (simp add: matching_wildcards_def split: key.splits)
  show ?thesis
    unfolding listenerCount_def lookup_polluted [OF p] e m
    by (simp add: slot_list_heap [OF h] split: found.splits)
qed

lemma user_call_frame:
  "same_registry s (fst (user_call \<beta> f args s))
   \<and> trace (fst (user_call \<beta> f args s)) = trace s @ [Called f args]
   \<and> snd (user_call \<beta> f args s) = snd (effect \<beta> f args)"
  by (simp add: user_call_def stopPropagation_def same_registry_def Let_def)

lemma call_plain:
  assumes "\<not> self_removing l"
  shows "snd (call \<beta> l args s) = throws \<beta> args l
         \<and> same_registry s (fst (call \<beta> l args s))
         \<and> trace (fst (call \<beta> l args s)) = trace s @ called args l"
proof (cases l)
  case (Fn f)
  then show ?thesis using user_call_frame [of s \<beta> f args] by simp
next
  case (Wrapper w k f)
  with assms show ?thesis by simp
next
  case (WaitHandler p)
  then show ?thesis
    by (simp add: resolve_def clearTimeout_def same_registry_def Let_def)
next
  case (RaceHandler p i k)
  with assms show ?thesis by simp
next
  case (Builtin name)
  then show ?thesis by (simp add: same_registry_refl)
qed

lemma call_caught_plain:
  assumes "\<not> self_removing l"
  shows "same_registry s (call_caught \<beta> args l s)
         \<and> trace (call_caught \<beta> args l s) = trace s @ calls_of \<beta> args [l]"
proof -
  obtain s1 e where c: "call \<beta> l args s = (s1, e)" by (cases "call \<beta> l args s")
  from call_plain [OF assms, of \<beta> args s] c
  have e: "e = throws \<beta> args l" and r: "same_registry s s1"
    and t: "trace s1 = trace s @ called args l"
    by simp_all
  show ?thesis
  proof (cases e)
    case None
    then show ?thesis using c e r t by (simp add: call_caught_def)
  next
    case (Some err)
    then have "call_caught \<beta> args l s = s1\<lparr>trace := trace s1 @ [Logged err]\<rparr>"
      using c by (simp add: call_caught_def)
    then show ?thesis using Some e r t by (simp add: same_registry_def)
  qed
qed

lemma calls_of_append:
  "calls_of \<beta> args (xs @ ys) = calls_of \<beta> args xs @ calls_of \<beta> args ys"
  by (induction xs) simp_all

lemma fold_call_caught_plain:
  "list_all (\<lambda>l. \<not> self_removing l) ls \<Longrightarrow>
   same_registry s (fold (call_caught \<beta> args) ls s)
   \<and> trace (fold (call_caught \<beta> args) ls s) = trace s @ calls_of \<beta> args ls"
proof (induction ls arbitrary: s)
  case Nil
  then show ?case by (simp add: same_registry_refl)
next
  case (Cons l ls)
  from Cons.prems have nw: "\<not> self_removing l"
    and rest: "list_all (\<lambda>l. \<not> self_removing l) ls"
    by simp_all
  let ?s1 = "call_caught \<beta> args l s"
  from call_caught_plain [OF nw, of s \<beta> args]
  have a: "same_registry s ?s1" and b: "trace ?s1 = trace s @ calls_of \<beta> args [l]"
    by simp_all
  from Cons.IH [OF rest, of ?s1]
  have c: "same_registry ?s1 (fold (call_caught \<beta> args) ls ?s1)"
    and d: "trace (fold (call_caught \<beta> args) ls ?s1) = trace ?s1 @ calls_of \<beta> args ls"
    by simp_all
  have e: "calls_of \<beta> args (l # ls) = calls_of \<beta> args [l] @ calls_of \<beta> args ls"
    using calls_of_append [of \<beta> args "[l]" ls] by simp
  show ?case using same_registry_trans [OF a c] b d e by simp
qed

lemma emitAsync_plain:
  assumes "listeners k s = Inr ls" and "list_all (\<lambda>l. \<not> self_removing l) ls"
  shows "same_registry s (fst (emitAsync \<beta> k args s))
         \<and> trace (fst (emitAsync \<beta> k args s)) = trace s @ calls_of \<beta> args ls
         \<and> snd (emitAsync \<beta> k args s)
             = Inr (\<not> (ls = [] \<and> anyListeners s = [] \<and> pipes s = [] \<and> wildcards s = []))"
proof (cases "ls = [] \<and> anyListeners s = [] \<and> pipes s = [] \<and> wildcards s = []")
  case True
  then show ?thesis using assms(1) by (simp add: emitAsync_def same_registry_refl)
next
  case False
  then have "emitAsync \<beta> k args s = (fold (call_caught \<beta> args) ls s, Inr True)"
    using assms(1) by (auto simp: emitAsync_def)
  then show ?thesis using fold_call_caught_plain [OF assms(2), of s \<beta> args] False by simp
qed

subsection \<open>Stable insertion by priority, on lists\<close>

lemma set_place: "set (place pr x ys) = insert x (set ys)"
  by (induction ys) auto

lemma mset_place: "mset (place pr x ys) = add_mset x (mset ys)"
  by (induction ys) auto

lemma hd_remdups_adj: "remdups_adj (y # ys) = y # tl (remdups_adj (y # ys))"
  by (cases ys) auto

lemma remdups_adj_snoc_new: "x \<notin> set xs \<Longrightarrow> remdups_adj (xs @ [x]) = remdups_adj xs @ [x]"
  by (induction xs rule: remdups_adj.induct) auto

lemma remdups_adj_place:
  "x \<notin> set ys \<Longrightarrow> remdups_adj (place pr x ys) = place pr x (remdups_adj ys)"
proof (induction ys rule: remdups_adj.induct)
  case 1
  then show ?case by simp
next
  case (2 y)
  then show ?case by auto
next
  case (3 y z zs)
  show ?case
  proof (cases "y = z")
    case True
    with 3 show ?thesis by auto
  next
    case False
    with 3 have ih: "remdups_adj (place pr x (z # zs)) = place pr x (remdups_adj (z # zs))"
      and xy: "x \<noteq> y" by auto
    show ?thesis
    proof (cases "pr x > pr y")
      case True
      with False xy show ?thesis by simp
    next
      case no: False
      have hdp: "\<exists>w ws. place pr x (z # zs) = w # ws \<and> w \<noteq> y"
        using False xy by (cases "pr x > pr z") auto
      then obtain w ws where w: "place pr x (z # zs) = w # ws" "w \<noteq> y" by blast
      have "remdups_adj (place pr x (y # z # zs)) = remdups_adj (y # w # ws)"
        using no w by simp
      also have "\<dots> = y # remdups_adj (w # ws)" using w by simp
      also have "\<dots> = y # place pr x (remdups_adj (z # zs))" using ih w by simp
      also have "\<dots> = place pr x (remdups_adj (y # z # zs))" using no False by simp
      finally show ?thesis .
    qed
  qed
qed

lemma remdups_adj_enqueue:
  "x \<notin> set xs \<Longrightarrow> remdups_adj (enqueue pr x xs) = enqueue_once pr x (remdups_adj xs)"
  by (auto simp: enqueue_def enqueue_once_def remdups_adj_snoc_new remdups_adj_place)

lemma set_enqueue: "set (enqueue pr x xs) = insert x (set xs)"
  by (auto simp: enqueue_def set_place)

lemma remdups_adj_fold_enqueue:
  "distinct rs \<Longrightarrow> set rs \<inter> set xs = {} \<Longrightarrow>
   remdups_adj (fold (enqueue pr) rs xs) = fold (enqueue_once pr) rs (remdups_adj xs)"
proof (induction rs arbitrary: xs)
  case Nil
  then show ?case by simp
next
  case (Cons r rs)
  then have "r \<notin> set xs" "distinct rs" "set rs \<inter> set (enqueue pr r xs) = {}"
    by (auto simp: set_enqueue)
  with Cons.IH [of "enqueue pr r xs"] show ?case
    by (simp add: remdups_adj_enqueue)
qed

lemma sorted_place:
  "sorted (map (\<lambda>r. - pr r) ys) \<Longrightarrow> sorted (map (\<lambda>r. - pr r) (place pr x ys))"
  by (induction ys) (auto simp: set_place)

lemma filter_place:
  "sorted (map (\<lambda>r. - pr r) ys) \<Longrightarrow>
   filter (\<lambda>r. pr r = q) (place pr x ys) = filter (\<lambda>r. pr r = q) ys @ (if pr x = q then [x] else [])"
proof (induction ys)
  case Nil
  then show ?case by simp
next
  case (Cons y ys)
  show ?case
  proof (cases "pr x > pr y")
    case True
    have "\<forall>z\<in>set (y # ys). pr z < pr x" using Cons.prems True by auto
    then have "pr x = q \<Longrightarrow> filter (\<lambda>r. pr r = q) (y # ys) = []"
      by (auto simp: filter_empty_conv)
    with True show ?thesis by auto
  next
    case False
    with Cons show ?thesis by auto
  qed
qed

lemma zero_never_after_negative_snoc:
  "zero_never_after_negative (ps @ [p]) =
     (zero_never_after_negative ps \<and> (p = 0 \<longrightarrow> (\<forall>q\<in>set ps. 0 \<le> q)))"
  by (induction ps) auto

lemma fold_enqueue_once_props:
  "zero_never_after_negative (map pr rs) \<Longrightarrow>
   sorted (map (\<lambda>r. - pr r) (fold (enqueue_once pr) rs []))
   \<and> mset (fold (enqueue_once pr) rs []) = mset rs
   \<and> (\<forall>q. filter (\<lambda>r. pr r = q) (fold (enqueue_once pr) rs []) = filter (\<lambda>r. pr r = q) rs)"
proof (induction rs rule: rev_induct)
  case Nil
  then show ?case by simp
next
  case (snoc r rs)
  let ?ys = "fold (enqueue_once pr) rs []"
  from snoc.prems have adm: "zero_never_after_negative (map pr rs)"
    and zero: "pr r = 0 \<Longrightarrow> \<forall>q\<in>set (map pr rs). 0 \<le> q"
    by (simp_all add: zero_never_after_negative_snoc)
  from snoc.IH [OF adm] have s: "sorted (map (\<lambda>r. - pr r) ?ys)" and m: "mset ?ys = mset rs"
    and f: "\<And>q. filter (\<lambda>r. pr r = q) ?ys = filter (\<lambda>r. pr r = q) rs" by auto
  have setys: "set ?ys = set rs" using m by (metis set_mset_mset)
  have step: "fold (enqueue_once pr) (rs @ [r]) [] = enqueue_once pr r ?ys" by simp
  show ?case
  proof (cases "pr r = 0")
    case True
    then have eq: "enqueue_once pr r ?ys = ?ys @ [r]" by (simp add: enqueue_once_def)
    from True have "\<forall>y\<in>set ?ys. 0 \<le> pr y" using zero setys by auto
    then have "sorted (map (\<lambda>r. - pr r) (?ys @ [r]))"
      using s True by (auto simp: sorted_append)
    then show ?thesis unfolding step eq using m f by simp
  next
    case False
    then have eq: "enqueue_once pr r ?ys = place pr r ?ys" by (simp add: enqueue_once_def)
    show ?thesis unfolding step eq
      using sorted_place [OF s, of r] filter_place [OF s, of _ r] m f
      by (simp add: mset_place)
  qed
qed

lemma fold_enqueue_once_sort:
  assumes "zero_never_after_negative (map pr rs)"
  shows "fold (enqueue_once pr) rs [] = sort_key (\<lambda>r. - pr r) rs"
proof -
  let ?ys = "fold (enqueue_once pr) rs []"
  from fold_enqueue_once_props [OF assms]
  have s: "sorted (map (\<lambda>r. - pr r) ?ys)" and m: "mset ?ys = mset rs"
    and f: "\<And>q. filter (\<lambda>r. pr r = q) ?ys = filter (\<lambda>r. pr r = q) rs" by auto
  have "sort_key (\<lambda>r. - pr r) rs = ?ys"
  proof (rule properties_for_sort_key)
    show "mset ?ys = mset rs" by (rule m)
    show "sorted (map (\<lambda>r. - pr r) ?ys)" by (rule s)
    fix k assume "k \<in> set ?ys"
    have "(\<lambda>x. - pr k = - pr x) = (\<lambda>x. pr x = pr k)" by auto
    then show "filter (\<lambda>x. - pr k = - pr x) ?ys = filter (\<lambda>x. - pr k = - pr x) rs"
      using f [of "pr k"] by simp
  qed
  then show ?thesis by simp
qed

lemma fold_enqueue_sorted:
  assumes "distinct rs" "zero_never_after_negative (map pr rs)"
  shows "remdups_adj (fold (enqueue pr) rs []) = sort_key (\<lambda>r. - pr r) rs"
  using remdups_adj_fold_enqueue [of rs "[]" pr] fold_enqueue_once_sort [OF assms(2)] assms(1)
  by simp

lemma remdups_adj_map_inj_on:
  "inj_on g (set xs) \<Longrightarrow> remdups_adj (map g xs) = map g (remdups_adj xs)"
  by (induction xs rule: remdups_adj.induct) (auto simp: inj_on_def)

subsection \<open>Registration and emission on an exact key\<close>

lemma not_pattern_not_star: "\<not> is_pattern k \<Longrightarrow> k \<noteq> Str ''*''"
  by (auto simp: is_pattern_def)

lemma insert_by_priority_map:
  "\<forall>r\<in>set L. q (h r) = pr r \<Longrightarrow>
   insert_by_priority q (pr x) (h x) (map h L) = map h (place pr x L)"
  by (induction L) auto

lemma store_append_list:
  assumes "store_append (events s k) x s = (s1, sl)"
  shows "slot_list (s1\<lparr>events := (events s1)(k := Some sl)\<rparr>) (Some sl) = slot_list s (events s k) @ [x]
         \<and> metadata s1 = metadata s \<and> same_rest s s1"
  using assms
  by (auto simp: store_append_def alloc_def slot_list_def same_rest_def Let_def
      split: option.splits slot.splits)

lemma store_insert_list:
  assumes "store_insert p (events s k) x s = (s1, sl)"
  shows "slot_list (s1\<lparr>events := (events s1)(k := Some sl)\<rparr>) (Some sl)
           = insert_by_priority (priority_of s) p x
               (if events s k = None then [x] else slot_list s (events s k))
         \<and> metadata s1 = metadata s \<and> same_rest s s1"
  using assms
  by (auto simp: store_insert_def alloc_def slot_list_def same_rest_def Let_def priority_of_def
      meta_get_def split: option.splits slot.splits)

lemma addListener_no_options:
  assumes "\<not> is_pattern k" and ok: "ordinary_key k"
  shows "addListener k f None s =
           Inr (let (s1, sl) = store_append (events s k) (Fn f) s
                in s1\<lparr>events := (events s1)(k := Some sl)\<rparr>)"
  using assms(1) not_pattern_not_star [OF assms(1)]
  by (simp add: addListener_def lookup_ordinary [OF ok] split: prod.splits)

lemma addListener_plain_options:
  assumes "\<not> is_pattern k" "plain_options (Some opt)" and ok: "ordinary_key k"
  shows "\<exists>s4. events s4 = events s \<and> heap s4 = heap s \<and> same_rest s s4
           \<and> (\<forall>g. g \<noteq> f \<longrightarrow> meta_get s4 (Fn g) = meta_get s (Fn g))
           \<and> priority_of s4 (Fn f) = or_default (opt_priority opt) 0
           \<and> addListener k f (Some opt) s =
               Inr (let (s5, sl) =
                          (if or_default (opt_priority opt) 0 = 0
                           then store_append (events s4 k) (Fn f) s4
                           else store_insert (or_default (opt_priority opt) 0) (events s4 k) (Fn f) s4)
                    in s5\<lparr>events := (events s5)(k := Some sl)\<rparr>)"
proof -
  from assms(2) have nt: "\<not> or_default (opt_times opt) (- 1) > 0" and nf: "opt_filter opt = None"
    by (simp_all add: plain_options_def)
  let ?s0 = "ensure_metadata s"
  obtain s2 tid where t: "ttl_timer (RemoveListenerAction k (Fn f)) (opt_ttl opt) ?s0 = (s2, tid)"
    by (cases "ttl_timer (RemoveListenerAction k (Fn f)) (opt_ttl opt) ?s0")
  let ?me = "\<lparr>priority = or_default (opt_priority opt) 0, times_m = or_default (opt_times opt) (- 1),
              timeoutId = tid, original = None, lastAccess = clock s2, filter_m = opt_filter opt\<rparr>"
  let ?s4 = "metadata_set (Fn f) ?me s2"
  have s2: "events s2 = events s" "heap s2 = heap s" "same_rest s s2"
    "\<exists>m. metadata s2 = Some m \<and> (\<forall>l. m l = meta_get s l)"
    using t
    by (auto simp: ttl_timer_def setTimeout_def ensure_metadata_def same_rest_def meta_get_def
        split: option.splits if_splits)
  then obtain m where m: "metadata s2 = Some m" "\<forall>l. m l = meta_get s l" by blast
  have s4: "events ?s4 = events s" "heap ?s4 = heap s" "same_rest s ?s4"
    "\<forall>g. g \<noteq> f \<longrightarrow> meta_get ?s4 (Fn g) = meta_get s (Fn g)"
    "priority_of ?s4 (Fn f) = or_default (opt_priority opt) 0"
    using s2 m by (auto simp: metadata_set_def same_rest_def meta_get_def priority_of_def)
  have "addListener k f (Some opt) s =
               Inr (let (s5, sl) =
                          (if or_default (opt_priority opt) 0 = 0
                           then store_append (events ?s4 k) (Fn f) ?s4
                           else store_insert (or_default (opt_priority opt) 0) (events ?s4 k) (Fn f) ?s4)
                    in s5\<lparr>events := (events s5)(k := Some sl)\<rparr>)"
    using assms(1) not_pattern_not_star [OF assms(1)] nt nf t
    by (simp add: addListener_def Let_def lookup_ordinary [OF ok] split: prod.splits)
  with s4 show ?thesis by blast
qed

lemma registered_after_store:
  assumes list: "slot_list (s1\<lparr>events := (events s1)(k := Some sl)\<rparr>) (Some sl) = map (\<lambda>r. Fn (fst r)) L'"
    and ne: "L' \<noteq> []"
    and md: "metadata s1 = metadata s4"
    and rest: "same_rest s4 s1"
    and pr: "\<forall>r\<in>set L'. priority_of s4 (Fn (fst r)) = reg_priority r"
    and fr: "\<forall>f. f \<notin> fst ` set L' \<longrightarrow> meta_get s4 (Fn f) = None"
    and base: "onceEvents s4 k = None" "flags s4 = 0" "anyListeners s4 = []" "pipes s4 = []" "trace s4 = []"
  shows "registered k L' (s1\<lparr>events := (events s1)(k := Some sl)\<rparr>)"
proof -
  let ?s' = "s1\<lparr>events := (events s1)(k := Some sl)\<rparr>"
  have m: "metadata ?s' = metadata s4" using md by simp
  have "\<forall>r\<in>set L'. priority_of ?s' (Fn (fst r)) = reg_priority r"
    using pr priority_of_metadata [OF m] by simp
  moreover have "\<forall>f. f \<notin> fst ` set L' \<longrightarrow> meta_get ?s' (Fn f) = None"
    using fr meta_get_metadata [OF m] by simp
  ultimately show ?thesis
    using list ne rest base by (simp add: registered_def same_rest_def)
qed

lemma addListener_registered:
  assumes reg: "registered k L s" and np: "\<not> is_pattern k" and ok: "ordinary_key k"
    and po: "plain_options (snd r)"
    and fresh: "fst r \<notin> fst ` set L"
  shows "\<exists>s'. addListener k (fst r) (snd r) s = Inr s'
              \<and> registered k (enqueue reg_priority r L) s'"
proof -
  let ?h = "\<lambda>r. Fn (fst r)"
  from reg have list: "slot_list s (events s k) = map ?h L"
    and emp: "(events s k = None) = (L = [])"
    and pr: "\<forall>r\<in>set L. priority_of s (Fn (fst r)) = reg_priority r"
    and fr: "\<forall>f. f \<notin> fst ` set L \<longrightarrow> meta_get s (Fn f) = None"
    and base: "onceEvents s k = None" "flags s = 0" "anyListeners s = []" "pipes s = []" "trace s = []"
    by (simp_all add: registered_def)
  show ?thesis
  proof (cases "snd r")
    case None
    then have p0: "reg_priority r = 0" by (simp add: reg_priority_def)
    obtain s1 sl where st: "store_append (events s k) (Fn (fst r)) s = (s1, sl)"
      by (cases "store_append (events s k) (Fn (fst r)) s")
    from store_append_list [OF st]
    have l1: "slot_list (s1\<lparr>events := (events s1)(k := Some sl)\<rparr>) (Some sl) = map ?h (L @ [r])"
      and md: "metadata s1 = metadata s" and rest: "same_rest s s1"
      using list by simp_all
    have "meta_get s (Fn (fst r)) = None" using fr fresh by simp
    then have "priority_of s (Fn (fst r)) = reg_priority r"
      using p0 by (simp add: priority_of_def)
    then have pr': "\<forall>x\<in>set (L @ [r]). priority_of s (Fn (fst x)) = reg_priority x"
      using pr by simp
    have fr': "\<forall>f. f \<notin> fst ` set (L @ [r]) \<longrightarrow> meta_get s (Fn f) = None" using fr by simp
    have "registered k (L @ [r]) (s1\<lparr>events := (events s1)(k := Some sl)\<rparr>)"
      by (rule registered_after_store [OF l1 _ md rest pr' fr' base]) simp
    moreover have "enqueue reg_priority r L = L @ [r]" using p0 by (simp add: enqueue_def)
    moreover have "addListener k (fst r) (snd r) s = Inr (s1\<lparr>events := (events s1)(k := Some sl)\<rparr>)"
      using addListener_no_options [OF np ok, where f = "fst r" and s = s] st None by simp
    ultimately show ?thesis by simp
  next
    case (Some opt)
    then have pp: "reg_priority r = or_default (opt_priority opt) 0" by (simp add: reg_priority_def)
    from po Some have "plain_options (Some opt)" by simp
    from addListener_plain_options [OF np this ok, where f = "fst r" and s = s]
    obtain s4 where ev: "events s4 = events s" and hp: "heap s4 = heap s" and r4: "same_rest s s4"
      and m4: "\<forall>g. g \<noteq> fst r \<longrightarrow> meta_get s4 (Fn g) = meta_get s (Fn g)"
      and p4: "priority_of s4 (Fn (fst r)) = reg_priority r"
      and add: "addListener k (fst r) (Some opt) s =
               Inr (let (s5, sl) =
                          (if reg_priority r = 0
                           then store_append (events s4 k) (Fn (fst r)) s4
                           else store_insert (reg_priority r) (events s4 k) (Fn (fst r)) s4)
                    in s5\<lparr>events := (events s5)(k := Some sl)\<rparr>)"
      using pp by auto
    have list4: "slot_list s4 (events s4 k) = map ?h L"
      using list ev slot_list_heap [OF hp] by simp
    have prL: "\<forall>x\<in>set L. priority_of s4 (Fn (fst x)) = reg_priority x"
    proof
      fix x assume x: "x \<in> set L"
      then have "fst x \<in> fst ` set L" by (rule imageI)
      then have "fst x \<noteq> fst r" using fresh by metis
      then have "meta_get s4 (Fn (fst x)) = meta_get s (Fn (fst x))" using m4 by simp
      then show "priority_of s4 (Fn (fst x)) = reg_priority x"
        using pr x by (simp add: priority_of_def)
    qed
    have base4: "onceEvents s4 k = None" "flags s4 = 0" "anyListeners s4 = []" "pipes s4 = []" "trace s4 = []"
      using base r4 by (simp_all add: same_rest_def)
    have setq: "set (enqueue reg_priority r L) = insert r (set L)" by (rule set_enqueue)
    have pr': "\<forall>x\<in>set (enqueue reg_priority r L). priority_of s4 (Fn (fst x)) = reg_priority x"
      using prL p4 setq by simp
    have fr': "\<forall>f. f \<notin> fst ` set (enqueue reg_priority r L) \<longrightarrow> meta_get s4 (Fn f) = None"
      using fr m4 setq by auto
    have ne: "enqueue reg_priority r L \<noteq> []" using setq by auto
    obtain s5 sl where st:
      "(if reg_priority r = 0
        then store_append (events s4 k) (Fn (fst r)) s4
        else store_insert (reg_priority r) (events s4 k) (Fn (fst r)) s4) = (s5, sl)"
      by (cases "if reg_priority r = 0
        then store_append (events s4 k) (Fn (fst r)) s4
        else store_insert (reg_priority r) (events s4 k) (Fn (fst r)) s4")
    have l5: "slot_list (s5\<lparr>events := (events s5)(k := Some sl)\<rparr>) (Some sl)
                = map ?h (enqueue reg_priority r L)
              \<and> metadata s5 = metadata s4 \<and> same_rest s4 s5"
    proof (cases "reg_priority r = 0")
      case True
      with st have "store_append (events s4 k) (Fn (fst r)) s4 = (s5, sl)" by simp
      from store_append_list [OF this] list4 True show ?thesis by (simp add: enqueue_def)
    next
      case False
      with st have "store_insert (reg_priority r) (events s4 k) (Fn (fst r)) s4 = (s5, sl)" by simp
      from store_insert_list [OF this]
      have a: "slot_list (s5\<lparr>events := (events s5)(k := Some sl)\<rparr>) (Some sl)
                 = insert_by_priority (priority_of s4) (reg_priority r) (?h r)
                     (if events s4 k = None then [?h r] else map ?h L)"
        and b: "metadata s5 = metadata s4" "same_rest s4 s5"
        using list4 by simp_all
      have "insert_by_priority (priority_of s4) (reg_priority r) (?h r)
              (if events s4 k = None then [?h r] else map ?h L)
            = map ?h (enqueue reg_priority r L)"
      proof (cases "L = []")
        case True
        then show ?thesis using emp ev p4 False by (simp add: enqueue_def)
      next
        case nonempty: False
        have "insert_by_priority (priority_of s4) (reg_priority r) (?h r) (map ?h L)
                = map ?h (place reg_priority r L)"
          by (rule insert_by_priority_map) (use prL in simp)
        then show ?thesis using nonempty emp ev False by (auto simp: enqueue_def)
      qed
      with a b show ?thesis by simp
    qed
    then have l5a: "slot_list (s5\<lparr>events := (events s5)(k := Some sl)\<rparr>) (Some sl)
                = map ?h (enqueue reg_priority r L)" and md5: "metadata s5 = metadata s4"
      and r5: "same_rest s4 s5" by simp_all
    have "registered k (enqueue reg_priority r L) (s5\<lparr>events := (events s5)(k := Some sl)\<rparr>)"
      by (rule registered_after_store [OF l5a ne md5 r5 pr' fr' base4])
    moreover have "addListener k (fst r) (snd r) s = Inr (s5\<lparr>events := (events s5)(k := Some sl)\<rparr>)"
      using add st Some by simp
    ultimately show ?thesis by simp
  qed
qed

lemma add_all_registered:
  assumes "registered k L s" and np: "\<not> is_pattern k" and ok: "ordinary_key k"
    and "list_all (\<lambda>r. plain_options (snd r)) rs"
    and "distinct (map fst rs)" and "fst ` set rs \<inter> fst ` set L = {}"
  shows "\<exists>s'. add_all k rs s = Inr s' \<and> registered k (fold (enqueue reg_priority) rs L) s'"
  using assms(1,4,5,6)
proof (induction rs arbitrary: L s)
  case Nil
  then show ?case by simp
next
  case (Cons r rs)
  from Cons.prems have po: "plain_options (snd r)" and fresh: "fst r \<notin> fst ` set L" by auto
  from addListener_registered [OF Cons.prems(1) np ok po fresh]
  obtain s1 where a: "addListener k (fst r) (snd r) s = Inr s1"
    and r1: "registered k (enqueue reg_priority r L) s1" by blast
  have dj: "fst ` set rs \<inter> fst ` set (enqueue reg_priority r L) = {}"
    using Cons.prems(3,4) by (auto simp: set_enqueue)
  have pl: "list_all (\<lambda>r. plain_options (snd r)) rs" and di: "distinct (map fst rs)"
    using Cons.prems(2,3) by simp_all
  from Cons.IH [OF r1 pl di dj]
  obtain s' where "add_all k rs s1 = Inr s'"
    "registered k (fold (enqueue reg_priority) rs (enqueue reg_priority r L)) s'" by auto
  with a show ?case by simp
qed

lemma registered_new: "registered k [] new_emitter"
  by (simp add: registered_def new_emitter_def slot_list_def meta_get_def)

lemma calls_of_calm:
  "list_all (calm \<beta> args) ls \<Longrightarrow> calls_of \<beta> args ls = concat (map (called args) ls)"
  by (induction ls) (simp_all add: calm_def)

lemma invoke_array_plain:
  "list_all (calm \<beta> args) (heap s a) \<Longrightarrow> i + n \<le> length (heap s a) \<Longrightarrow>
   snd (invoke_array \<beta> a args i n s) = None
   \<and> same_registry s (fst (invoke_array \<beta> a args i n s))
   \<and> trace (fst (invoke_array \<beta> a args i n s))
       = trace s @ concat (map (called args) (take n (drop i (heap s a))))"
proof (induction n arbitrary: i s)
  case 0
  then show ?case by (simp add: same_registry_refl)
next
  case (Suc n)
  let ?l = "heap s a ! i"
  from Suc.prems have i: "i < length (heap s a)" by simp
  then have cl: "calm \<beta> args ?l" using Suc.prems(1) by (simp add: list_all_length)
  then have nw: "\<not> self_removing ?l" and nt: "throws \<beta> args ?l = None"
    by (simp_all add: calm_def)
  obtain s1 e where c: "call \<beta> ?l args s = (s1, e)" by (cases "call \<beta> ?l args s")
  from call_plain [OF nw, of \<beta> args s] c nt
  have e: "e = None" and sr: "same_registry s s1" and tr: "trace s1 = trace s @ called args ?l"
    by simp_all
  have hp: "heap s1 = heap s" using sr by (simp add: same_registry_def)
  from Suc.IH [of s1 "Suc i"] Suc.prems hp
  have ih: "snd (invoke_array \<beta> a args (Suc i) n s1) = None"
    "same_registry s1 (fst (invoke_array \<beta> a args (Suc i) n s1))"
    "trace (fst (invoke_array \<beta> a args (Suc i) n s1))
       = trace s1 @ concat (map (called args) (take n (drop (Suc i) (heap s a))))"
    by simp_all
  have step: "invoke_array \<beta> a args i (Suc n) s = invoke_array \<beta> a args (Suc i) n s1"
    using i c e by simp
  have tk: "take (Suc n) (drop i (heap s a)) = ?l # take n (drop (Suc i) (heap s a))"
    using i by (simp add: Cons_nth_drop_Suc [symmetric])
  have "trace (fst (invoke_array \<beta> a args (Suc i) n s1))
               = trace s @ concat (map (called args) (take (Suc n) (drop i (heap s a))))"
    unfolding tk using ih(3) tr by simp
  then show ?case
    unfolding step using ih(1) same_registry_trans [OF sr ih(2)] by blast
qed

lemma called_Fn: "concat (map (called args) (map (\<lambda>r. Fn (fst r)) L)) = map (\<lambda>r. Called (fst r) args) L"
  by (induction L) simp_all

lemma calm_Fn:
  "list_all (\<lambda>r. returns \<beta> args (fst r)) L \<Longrightarrow>
   list_all (calm \<beta> args) (map (\<lambda>r. Fn (fst r)) L)"
  by (induction L) (simp_all add: calm_def returns_def)

lemma run_extras_no_flags: "flags s = 0 \<Longrightarrow> run_extras \<beta> k args s = (s, None)"
  by (simp add: run_extras_def)

lemma finish_no_flags: "flags s = 0 \<Longrightarrow> finish \<beta> k args s = (s, Inr True)"
  by (simp add: finish_def run_extras_no_flags)

lemma emit_registered:
  assumes reg: "registered k L s" and ok: "ordinary_key k"
    and nt: "list_all (\<lambda>r. returns \<beta> args (fst r)) L"
  shows "snd (emit \<beta> k args s) = Inr (L \<noteq> [])
         \<and> trace (fst (emit \<beta> k args s)) = map (\<lambda>r. Called (fst r) args) L"
proof -
  from reg have list: "slot_list s (events s k) = map (\<lambda>r. Fn (fst r)) L"
    and emp: "(events s k = None) = (L = [])"
    and base: "onceEvents s k = None" "flags s = 0" "anyListeners s = []" "pipes s = []" "trace s = []"
    by (simp_all add: registered_def)
  note lk = lookup_ordinary [OF ok]
  show ?thesis
  proof (cases "events s k")
    case None
    then show ?thesis using emp base by (simp add: emit_def lk)
  next
    case (Some sl)
    then have ne: "L \<noteq> []" using emp by simp
    show ?thesis
    proof (cases sl)
      case (Single l)
      with Some list obtain r where L: "L = [r]" and l: "l = Fn (fst r)"
        by (auto simp: slot_list_def)
      obtain s1 e where u: "user_call \<beta> (fst r) args s = (s1, e)"
        by (cases "user_call \<beta> (fst r) args s")
      from user_call_frame [of s \<beta> "fst r" args] u nt L returns_def [of \<beta> args "fst r"]
      have sr: "same_registry s s1" and tr: "trace s1 = [Called (fst r) args]" and e: "e = None"
        using base by simp_all
      have o1: "onceEvents s1 k = None" "flags s1 = 0"
        using sr base by (simp_all add: same_registry_def)
      have "emit \<beta> k args s = (s1, Inr True)"
        using Some Single l base o1 u e finish_no_flags [of s1 \<beta> k args]
        by (simp add: emit_def lk HAS_FILTERS_def)
      then show ?thesis using tr L by simp
    next
      case (Arr a)
      with Some list have hp: "heap s a = map (\<lambda>r. Fn (fst r)) L" by (simp add: slot_list_def)
      let ?r = "invoke_array \<beta> a args 0 (length (heap s a)) s"
      have nw: "list_all (calm \<beta> args) (heap s a)" using hp calm_Fn [OF nt] by simp
      from invoke_array_plain [OF nw, of 0 "length (heap s a)"]
      have e: "snd ?r = None" and sr: "same_registry s (fst ?r)"
        and tr: "trace (fst ?r) = map (\<lambda>r. Called (fst r) args) L"
        using base hp called_Fn by simp_all
      obtain s1 where r: "?r = (s1, None)" using e by (cases ?r) simp
      then have s1: "flags s1 = 0" "trace s1 = map (\<lambda>r. Called (fst r) args) L"
        using sr tr base by (simp_all add: same_registry_def)
      have "emit \<beta> k args s = (s1, Inr True)"
        using Some Arr base r s1 finish_no_flags [of s1 \<beta> k args]
        by (simp add: emit_def lk)
      then show ?thesis using s1 ne by simp
    qed
  qed
qed

subsection \<open>waitFor and the first emission\<close>

























subsection \<open>The timeout of waitFor\<close>











subsection \<open>The text of the timeout error\<close>



subsection \<open>Inherited names, throwing listeners and handlers of race\<close>

text \<open>
  Inherited names. On a new emitter \<^verbatim>\<open>emit('toString')\<close> finds the inherited
  function in both stores, calls it and returns true. A registration for
  \<^verbatim>\<open>__proto__\<close> stores nothing under that key, and \<^verbatim>\<open>emit('__proto__')\<close>
  calls nothing; the listener is found under \<^verbatim>\<open>undefined\<close> instead. After
  \<^verbatim>\<open>waitFor('hasOwnProperty')\<close> the emission calls the inherited function
  first, which throws a TypeError, and the promise stays pending.
\<close>

lemma inherited_names:
  "snd (emit quiet (Str ''toString'') [] new_emitter) = Inr True
   \<and> trace (fst (emit quiet (Str ''toString'') [] new_emitter)) = []
   \<and> (case addListener (Str ''__proto__'') 1 None new_emitter of
         Inl e \<Rightarrow> None
       | Inr s \<Rightarrow>
           Some (events s (Str ''__proto__''), emit quiet (Str ''__proto__'') [VNum 3] s = (s, Inr True),
                 listeners (Str ''__proto__'') s, listeners (Str ''undefined'') s))
       = Some (None, True, Inl TypeError, Inr [Fn 1, Fn 1])
   \<and> (let (s1, p) = waitFor (Str ''hasOwnProperty'') None new_emitter;
            r = emit quiet (Str ''hasOwnProperty'') [VNum 7] s1
        in (snd r, promises (fst r) p)) = (Inl TypeError, Pending)"
  by (simp add: emitter_defs Let_def cong: let_weak_cong)

text \<open>
  A listener that throws. Listeners 1 and 2 are registered on \<^verbatim>\<open>d\<close>, and
  listener 1 throws: \<^verbatim>\<open>emit('d')\<close> throws after the first call, and
  \<^verbatim>\<open>emitAsync('d')\<close> logs the error and goes on.
\<close>

lemma throwing_listener:
  "(case and_then (addListener (Str ''d'') 1 None new_emitter) (addListener (Str ''d'') 2 None) of
      Inl e \<Rightarrow> None
    | Inr s \<Rightarrow>
        Some (snd (emit first_throws (Str ''d'') [] s),
              trace (fst (emit first_throws (Str ''d'') [] s)),
              snd (emitAsync first_throws (Str ''d'') [] s),
              trace (fst (emitAsync first_throws (Str ''d'') [] s))))
   = Some (Inl (Raised 7), [Called 1 []], Inr True,
           [Called 1 [], Logged (Raised 7), Called 2 []])"
  by (simp add: emitter_defs Let_def cong: let_weak_cong)

text \<open>
  A handler of \<^verbatim>\<open>race\<close>. After \<^verbatim>\<open>race(['k'])\<close> the handler is the only
  listener of \<^verbatim>\<open>k\<close>; \<^verbatim>\<open>emitAsync('k', 1)\<close> calls it, and its \<^verbatim>\<open>cleanup\<close>
  removes it. With \<^verbatim>\<open>race(['data', '__proto__'])\<close> followed by
  \<^verbatim>\<open>waitFor('data')\<close>, the handler of the race is called first by
  \<^verbatim>\<open>emit('data', 7)\<close>; its \<^verbatim>\<open>cleanup\<close> throws at \<^verbatim>\<open>__proto__\<close>, so the
  handler of \<^verbatim>\<open>waitFor\<close> is never called and both promises stay pending.
\<close>

lemma race_handlers:
  "(let (s1, p) = race [Str ''k''] None new_emitter;
        r = emitAsync quiet (Str ''k'') [VNum 1] s1
    in (listeners (Str ''k'') s1, listenerCount (Str ''k'') s1, snd r,
        listenerCount (Str ''k'') (fst r), promises (fst r) p))
   = (Inr [RaceHandler 0 0 (Str ''k'')], Some (Count 1), Inr True, Some (Count 0),
      Won (Str ''k'') [VNum 1])
   \<and> (let (s1, p) = race [Str ''data'', Str ''__proto__''] None new_emitter;
            (s2, q) = waitFor (Str ''data'') None s1;
            r = emit quiet (Str ''data'') [VNum 7] s2
        in (listeners (Str ''data'') s2, snd r, promises (fst r) p, promises (fst r) q))
       = (Inr [RaceHandler 0 0 (Str ''data''), WaitHandler 1], Inl TypeError, Pending, Pending)"
  by (simp add: emitter_defs Let_def cong: let_weak_cong)

subsection \<open>Another timer can detach the handler\<close>

text \<open>
  Listener 1 is registered for the empty name with \<^verbatim>\<open>ttl: 5\<close>, then
  \<^verbatim>\<open>waitFor('data')\<close> is called. After 10 milliseconds the timer of listener 1
  has called \<^verbatim>\<open>removeListener('', f1)\<close>, which removes every listener for an
  empty name: the handler is gone, \<^verbatim>\<open>emit('data', 7)\<close> finds no listener and
  the promise stays pending.
\<close>

lemma other_timer_detaches_handler:
  "(case addListener (Str []) 1 (Some (with_ttl 5)) new_emitter of
      Inl e \<Rightarrow> None
    | Inr s \<Rightarrow>
        (let (s1, p) = waitFor (Str ''data'') None s;
             r = emit quiet (Str ''data'') [VNum 7] (advance 10 s1)
         in Some (listeners (Str ''data'') s1, listeners (Str ''data'') (advance 10 s1),
                  snd r, promises (fst r) p)))
   = Some (Inr [WaitHandler 0], Inr [], Inr False, Pending)"
  by (simp add: emitter_defs Let_def cong: let_weak_cong)



section \<open>The claims\<close>

text \<open>
  Claim C1 (the code differs). \<^verbatim>\<open>emit\<close> is to return true exactly when some
  listener exists for the key, a matching wildcard listener included. On an
  emitter whose only listener is registered for the pattern \<^verbatim>\<open>user.*\<close>,
  \<^verbatim>\<open>listeners('user.created')\<close> holds that listener and \<^verbatim>\<open>emitAsync\<close>
  returns true, but \<^verbatim>\<open>emit('user.created', 1)\<close> returns false and calls
  nothing: its test for ``no listeners'' leaves the wildcards out.
\<close>

theorem emit_false_with_matching_wildcard:
  "(case addListener (Str ''user.*'') 1 None new_emitter of
      Inl e \<Rightarrow> None
    | Inr s \<Rightarrow>
        Some (listeners (Str ''user.created'') s,
              snd (emit quiet (Str ''user.created'') [VNum 1] s),
              trace (fst (emit quiet (Str ''user.created'') [VNum 1] s)),
              snd (emitAsync quiet (Str ''user.created'') [VNum 1] s)))
   = Some (Inr [Fn 1], Inr False, [], Inr True)"
  by (simp add: emitter_defs Let_def cong: let_weak_cong)

text \<open>
  Claim C2 (the code differs). The propagation-stopped flag is to suppress the
  later listeners of the same call and to be cleared when the next emission
  starts. With the regular listener 1 (which stops on \<^verbatim>\<open>'stop'\<close>) and the once
  listener 2 on \<^verbatim>\<open>data\<close>, the call \<^verbatim>\<open>emit('data', 'stop')\<close> leaves the
  flag set, and the following \<^verbatim>\<open>emit('data', 'go')\<close> calls listener 1 alone:
  listener 2 stays registered and is never called, the flag stays set. And
  with two regular listeners 1 and 2 on the key, listener 2 is still called
  after listener 1 has stopped the propagation in the same call.
\<close>

theorem propagation_flag_not_transient:
  "(case addListener (Str ''data'') 1 None new_emitter of
      Inl e \<Rightarrow> None
    | Inr s \<Rightarrow>
        (let s1 = once (Str ''data'') (Fn 2) None s;
             r1 = emit stops_on_stop (Str ''data'') [VStr ''stop''] s1;
             r2 = emit stops_on_stop (Str ''data'') [VStr ''go''] (fst r1)
         in Some (trace (fst r1), propagationStopped (fst r1),
                  snd r2, trace (fst r2), propagationStopped (fst r2),
                  listeners (Str ''data'') (fst r2))))
   = Some ([Called 1 [VStr ''stop'']], True,
           Inr True, [Called 1 [VStr ''stop''], Called 1 [VStr ''go'']], True,
           Inr [Fn 1, Fn 2])
   \<and> (case and_then (addListener (Str ''data'') 1 None new_emitter)
              (addListener (Str ''data'') 2 None) of
         Inl e \<Rightarrow> None
       | Inr s \<Rightarrow> Some (trace (fst (emit stops_on_stop (Str ''data'') [VStr ''stop''] s))))
     = Some [Called 1 [VStr ''stop''], Called 2 [VStr ''stop'']]"
  by (simp add: emitter_defs Let_def cong: let_weak_cong)

text \<open>
  Claim C3 (the code differs). \<^verbatim>\<open>emitAsync\<close> is to reach the same listeners
  as \<^verbatim>\<open>emit\<close>, the catch-all listeners and the piped targets included. With
  listener 1 on key \<^verbatim>\<open>k\<close> and a pipe to target 7, \<^verbatim>\<open>emit('k', 1)\<close> calls
  listener 1 and forwards to the target; \<^verbatim>\<open>emitAsync('k', 1)\<close> calls
  listener 1 only. With the pipe alone \<^verbatim>\<open>emitAsync\<close> returns true and does
  nothing at all.
\<close>

theorem emitAsync_skips_pipes:
  "(case addListener (Str ''k'') 1 None new_emitter of
      Inl e \<Rightarrow> None
    | Inr s \<Rightarrow>
        Some (trace (fst (emit quiet (Str ''k'') [VNum 1] (pipe 7 s))),
              trace (fst (emitAsync quiet (Str ''k'') [VNum 1] (pipe 7 s))),
              snd (emitAsync quiet (Str ''k'') [VNum 1] (pipe 7 s))))
   = Some ([Called 1 [VNum 1], Forwarded 7 (Str ''k'') [VNum 1]], [Called 1 [VNum 1]], Inr True)
   \<and> trace (fst (emit quiet (Str ''k'') [VNum 1] (pipe 7 new_emitter)))
       = [Forwarded 7 (Str ''k'') [VNum 1]]
   \<and> snd (emitAsync quiet (Str ''k'') [VNum 1] (pipe 7 new_emitter)) = Inr True
   \<and> trace (fst (emitAsync quiet (Str ''k'') [VNum 1] (pipe 7 new_emitter))) = []"
  by (simp add: emitter_defs Let_def cong: let_weak_cong)

text \<open>
  Claim C4, as amended. Distinct functions of the caller's are registered in
  turn with \<^verbatim>\<open>addListener\<close> for one exact key on a new emitter, with or
  without a priority and a ttl, without \<^verbatim>\<open>times\<close> and without a filter; the
  key is no name that the stores inherit, no listener of priority 0 is
  registered after one of negative priority, and none of the functions throws
  when it is called with the arguments of the emission. Then every
  registration succeeds, \<^verbatim>\<open>emit\<close> returns true exactly when there is a
  registration, and it calls the listeners in the order of a stable sort by
  descending priority: higher priority first, equal priorities in registration
  order. Consecutive calls of one listener count once.
\<close>

theorem emit_order_is_stable_priority_order:
  assumes "\<not> is_pattern k" and "ordinary_key k"
    and "distinct (map fst regs)"
    and "list_all (\<lambda>r. plain_options (snd r)) regs"
    and "zero_never_after_negative (map reg_priority regs)"
    and "list_all (\<lambda>r. returns \<beta> args (fst r)) regs"
  shows "\<exists>s. add_all k regs new_emitter = Inr s
             \<and> snd (emit \<beta> k args s) = Inr (regs \<noteq> [])
             \<and> remdups_adj (trace (fst (emit \<beta> k args s)))
                 = map (\<lambda>r. Called (fst r) args) (sort_key (\<lambda>r. - reg_priority r) regs)"
proof -
  let ?L = "fold (enqueue reg_priority) regs []"
  from add_all_registered [OF registered_new assms(1) assms(2) assms(4) assms(3)]
  obtain s where a: "add_all k regs new_emitter = Inr s" and r: "registered k ?L s" by auto
  have d: "distinct regs" using assms(3) by (rule distinct_map [THEN iffD1, THEN conjunct1])
  have sorted: "remdups_adj ?L = sort_key (\<lambda>r. - reg_priority r) regs"
    by (rule fold_enqueue_sorted [OF d assms(5)])
  have setL: "set ?L = set regs"
  proof -
    have "\<And>xs. set (fold (enqueue reg_priority) regs xs) = set regs \<union> set xs"
      by (induction regs) (auto simp: set_enqueue)
    then show ?thesis by simp
  qed
  have "inj_on fst (set regs)" using assms(3) by (simp add: distinct_map)
  then have inj: "inj_on (\<lambda>r. Called (fst r) args) (set ?L)"
    unfolding setL by (auto simp: inj_on_def)
  have nt: "list_all (\<lambda>r. returns \<beta> args (fst r)) ?L"
    using assms(6) setL by (simp add: list_all_iff)
  from emit_registered [OF r assms(2) nt]
  have e: "snd (emit \<beta> k args s) = Inr (?L \<noteq> [])"
    and t: "trace (fst (emit \<beta> k args s)) = map (\<lambda>r. Called (fst r) args) ?L" by simp_all
  have "(?L \<noteq> []) = (regs \<noteq> [])" using setL by (metis set_empty)
  moreover have "remdups_adj (trace (fst (emit \<beta> k args s)))
                   = map (\<lambda>r. Called (fst r) args) (sort_key (\<lambda>r. - reg_priority r) regs)"
    unfolding t using remdups_adj_map_inj_on [OF inj] sorted by simp
  ultimately show ?thesis using a e by auto
qed

text \<open>
  An instance: listener 1 with priority 1, listener 2 without options,
  listener 3 with priority 5 are called in the order 3, 1, 2.
\<close>

theorem emit_order_is_stable_priority_order_witness:
  "\<not> is_pattern (Str ''data'') \<and> ordinary_key (Str ''data'')
   \<and> distinct (map fst [(1::nat, Some (with_priority 1)), (2, None), (3, Some (with_priority 5))])
   \<and> list_all (\<lambda>r. plain_options (snd r))
       [(1::nat, Some (with_priority 1)), (2, None), (3, Some (with_priority 5))]
   \<and> zero_never_after_negative
       (map reg_priority [(1::nat, Some (with_priority 1)), (2, None), (3, Some (with_priority 5))])
   \<and> list_all (\<lambda>r. returns quiet [VNum 1] (fst r))
       [(1::nat, Some (with_priority 1)), (2, None), (3, Some (with_priority 5))]
   \<and> (case add_all (Str ''data'')
              [(1::nat, Some (with_priority 1)), (2, None), (3, Some (with_priority 5))] new_emitter of
         Inl e \<Rightarrow> False
       | Inr s \<Rightarrow>
           remdups_adj (trace (fst (emit quiet (Str ''data'') [VNum 1] s)))
             = [Called 3 [VNum 1], Called 1 [VNum 1], Called 2 [VNum 1]])"
proof -
  let ?regs = "[(1::nat, Some (with_priority 1)), (2, None), (3, Some (with_priority 5))]"
  have h1: "\<not> is_pattern (Str ''data'')" by (simp add: is_pattern_def)
  have h0: "ordinary_key (Str ''data'')"
    by (simp add: ordinary_key_def object_prototype_methods_def)
  have h2: "distinct (map fst ?regs)" by simp
  have h3: "list_all (\<lambda>r. plain_options (snd r)) ?regs"
    by (simp add: plain_options_def with_priority_def or_default_def)
  have h4: "zero_never_after_negative (map reg_priority ?regs)"
    by (simp add: reg_priority_def with_priority_def or_default_def)
  have h5: "list_all (\<lambda>r. returns quiet [VNum 1] (fst r)) ?regs"
    by (simp add: returns_def quiet_def)
  have srt: "sort_key (\<lambda>r. - reg_priority r) ?regs
               = [(3, Some (with_priority 5)), (1, Some (with_priority 1)), (2, None)]"
    by (simp add: reg_priority_def with_priority_def or_default_def)
  from emit_order_is_stable_priority_order [OF h1 h0 h2 h3 h4 h5]
  obtain s where "add_all (Str ''data'') ?regs new_emitter = Inr s"
    "remdups_adj (trace (fst (emit quiet (Str ''data'') [VNum 1] s)))
       = map (\<lambda>r. Called (fst r) [VNum 1]) (sort_key (\<lambda>r. - reg_priority r) ?regs)"
    by blast
  then show ?thesis using h1 h0 h2 h3 h4 h5 srt by simp
qed

text \<open>
  Claim C4 as first stated fails: listener 1 is registered without options,
  listener 2 with priority \<open>- 1\<close>, listener 3 without options. A listener of
  priority 0 is appended whatever stands before it, so \<^verbatim>\<open>emit\<close> calls
  listener 3 (priority 0) after listener 2 (priority \<open>- 1\<close>).
\<close>

theorem zero_priority_after_negative:
  "(case and_then
           (and_then (addListener (Str ''data'') 1 None new_emitter)
              (addListener (Str ''data'') 2 (Some (with_priority (- 1)))))
           (addListener (Str ''data'') 3 None) of
      Inl e \<Rightarrow> None
    | Inr s \<Rightarrow>
        Some (trace (fst (emit quiet (Str ''data'') [] s)),
              map (priority_of s) [Fn 1, Fn 2, Fn 3]))
   = Some ([Called 1 [], Called 2 [], Called 3 []], [0, - 1, 0])"
  by (simp add: emitter_defs Let_def cong: let_weak_cong)

text \<open>
  Claim C5 (the code differs). A listener registered with \<^verbatim>\<open>times = N\<close> is to
  be called N times and never again, on a pattern as on an exact key. Listener
  1 is registered for the pattern \<^verbatim>\<open>user.*\<close> with \<^verbatim>\<open>times: 1\<close> on an emitter
  that has a metadata table (listener 2 on \<^verbatim>\<open>user.x\<close> was registered with
  options). Two calls \<^verbatim>\<open>emit('user.x')\<close> call listener 1 twice, and its
  stored count is 1 before and after: for a pattern the count is stored and
  nothing ever reads it.
\<close>

theorem wildcard_times_not_enforced:
  "(case and_then (addListener (Str ''user.x'') 2 (Some (with_priority 0)) new_emitter)
           (addListener (Str ''user.*'') 1 (Some (with_times 1))) of
      Inl e \<Rightarrow> None
    | Inr s \<Rightarrow>
        (let r1 = emit quiet (Str ''user.x'') [] s;
             r2 = emit quiet (Str ''user.x'') [] (fst r1)
         in Some (map_option times_m (meta_get s (Fn 1)),
                  trace (fst r2),
                  map_option times_m (meta_get (fst r2) (Fn 1)),
                  listeners (Str ''user.x'') (fst r2))))
   = Some (Some 1, [Called 2 [], Called 1 [], Called 2 [], Called 1 []], Some 1,
           Inr [Fn 2, Fn 1])"
  by (simp add: emitter_defs Let_def cong: let_weak_cong)

text \<open>
  Claim C6 (the code differs). The matching rules: \<^verbatim>\<open>**\<close> matches any
  sequence including separators, \<^verbatim>\<open>?\<close> exactly one character, and every
  other character, the separator \<^verbatim>\<open>.\<close> among them, only itself. The
  compiler replaces \<^verbatim>\<open>**\<close> by \<^verbatim>\<open>.*\<close> and then every \<^verbatim>\<open>*\<close>, the new one
  too, by \<^verbatim>\<open>[^.]*\<close>; it leaves \<^verbatim>\<open>.\<close> and \<^verbatim>\<open>?\<close> to the regular expression.
  So \<^verbatim>\<open>user.**\<close> does not match \<^verbatim>\<open>user.created.extra\<close>, \<^verbatim>\<open>user.*\<close> matches
  \<^verbatim>\<open>userXcreated\<close>, \<^verbatim>\<open>a?c\<close> does not match \<^verbatim>\<open>abc\<close>, and the pattern
  \<^verbatim>\<open>?\<close> does not compile.
\<close>

theorem compilePattern_breaks_matching_rules:
  "pattern_test ''user.**'' ''user.created.extra'' = Some False
   \<and> pattern_test ''user.*'' ''userXcreated'' = Some True
   \<and> pattern_test ''a?c'' ''abc'' = Some False
   \<and> compilePattern ''?'' = Inl SyntaxError"
  by (simp add: emitter_defs)

text \<open>
  Claim C7 (the code differs). A listener registered with \<^verbatim>\<open>ttl = D\<close> is to
  be removed after D milliseconds, on a pattern as on an exact key. Listener 1
  is registered for the pattern \<^verbatim>\<open>user.*\<close> and listener 3 for the key \<^verbatim>\<open>a\<close>,
  both with \<^verbatim>\<open>ttl: 10\<close>. The timer of the pattern has the empty callback.
  After 50 milliseconds listener 3 is gone, listener 1 is still registered,
  and \<^verbatim>\<open>emit('user.x')\<close> calls it.
\<close>

theorem wildcard_ttl_never_removes:
  "(case and_then
           (and_then (addListener (Str ''user.x'') 2 (Some (with_priority 0)) new_emitter)
              (addListener (Str ''a'') 3 (Some (with_ttl 10))))
           (addListener (Str ''user.*'') 1 (Some (with_ttl 10))) of
      Inl e \<Rightarrow> None
    | Inr s \<Rightarrow>
        (let s1 = advance 50 s
         in Some (timers s, timers s1,
                  listeners (Str ''a'') s, listeners (Str ''a'') s1,
                  listeners (Str ''user.x'') s1,
                  trace (fst (emit quiet (Str ''user.x'') [] s1)))))
   = Some ([(1, 10, RemoveListenerAction (Str ''a'') (Fn 3)), (2, 10, NoAction)], [],
           Inr [Fn 3], Inr [],
           Inr [Fn 2, Fn 1],
           [Called 2 [], Called 1 []])"
  by (simp add: emitter_defs Let_def cong: let_weak_cong)

text \<open>
  Claim C8 (the code differs). Registering a listener for the name \<^verbatim>\<open>*\<close> is
  to make it a catch-all listener, called with the event key before the
  arguments. \<^verbatim>\<open>addListener\<close> tests for a pattern first and returns, and
  \<^verbatim>\<open>*\<close> is a pattern: listener 1 lands among the wildcards, the list of
  catch-all listeners stays empty, and \<^verbatim>\<open>emit('data', 'x')\<close> calls listener 1
  with \<^verbatim>\<open>('x')\<close>, not with \<^verbatim>\<open>('data', 'x')\<close>.
\<close>

theorem star_is_not_catch_all:
  "(case and_then (addListener (Str ''*'') 1 None new_emitter)
           (addListener (Str ''data'') 2 None) of
      Inl e \<Rightarrow> None
    | Inr s \<Rightarrow>
        Some (anyListeners s, map fst (wildcards s),
              trace (fst (emit quiet (Str ''data'') [VStr ''x''] s))))
   = Some ([], [''*''], [Called 2 [VStr ''x''], Called 1 [VStr ''x'']])"
  by (simp add: emitter_defs Let_def cong: let_weak_cong)




text \<open>
  Claim C10, as amended. The listeners of the key are functions of the
  caller's that call no method of the emitter but \<^verbatim>\<open>stopPropagation\<close>,
  handlers of \<^verbatim>\<open>waitFor\<close> or inherited functions: none is a counting wrapper
  (a registration with \<^verbatim>\<open>times\<close>) or a handler of \<^verbatim>\<open>race\<close>, which remove
  listeners when they are called. Then \<^verbatim>\<open>emitAsync\<close> completes and leaves the
  once store, the arrays, the metadata, \<^verbatim>\<open>listenerCount(key)\<close> and
  \<^verbatim>\<open>listeners(key)\<close> as they are; it calls the listeners of the key in order,
  and a following \<^verbatim>\<open>emitAsync\<close> calls them all again, the once listeners
  included.
\<close>

theorem emitAsync_keeps_once_listeners:
  assumes "listeners k s = Inr ls" and "list_all (\<lambda>l. \<not> self_removing l) ls"
  shows "onceEvents (fst (emitAsync \<beta> k args s)) = onceEvents s
         \<and> heap (fst (emitAsync \<beta> k args s)) = heap s
         \<and> metadata (fst (emitAsync \<beta> k args s)) = metadata s
         \<and> listenerCount k (fst (emitAsync \<beta> k args s)) = listenerCount k s
         \<and> listeners k (fst (emitAsync \<beta> k args s)) = Inr ls
         \<and> snd (emitAsync \<beta> k args s)
             = Inr (\<not> (ls = [] \<and> anyListeners s = [] \<and> pipes s = [] \<and> wildcards s = []))
         \<and> trace (fst (emitAsync \<beta> k args s)) = trace s @ calls_of \<beta> args ls
         \<and> trace (fst (emitAsync \<beta> k args2 (fst (emitAsync \<beta> k args s))))
             = trace s @ calls_of \<beta> args ls @ calls_of \<beta> args2 ls"
proof -
  let ?s1 = "fst (emitAsync \<beta> k args s)"
  from emitAsync_plain [OF assms, of \<beta> args]
  have a: "same_registry s ?s1" and b: "trace ?s1 = trace s @ calls_of \<beta> args ls"
    and r: "snd (emitAsync \<beta> k args s)
             = Inr (\<not> (ls = [] \<and> anyListeners s = [] \<and> pipes s = [] \<and> wildcards s = []))"
    by simp_all
  have l1: "listeners k ?s1 = Inr ls" using same_registry_listeners [OF a] assms(1) by simp
  from emitAsync_plain [OF l1 assms(2), of \<beta> args2]
  have c: "trace (fst (emitAsync \<beta> k args2 ?s1)) = trace ?s1 @ calls_of \<beta> args2 ls"
    by simp
  show ?thesis
    using a b c l1 r same_registry_listenerCount [OF a] by (simp add: same_registry_def)
qed

text \<open>
  An instance: the once listener 2 on key \<^verbatim>\<open>k\<close> is called by both of two
  calls of \<^verbatim>\<open>emitAsync\<close> and is still registered.
\<close>

theorem emitAsync_keeps_once_listeners_witness:
  "(let s = once (Str ''k'') (Fn 2) None new_emitter
    in listeners (Str ''k'') s = Inr [Fn 2]
       \<and> list_all (\<lambda>l. \<not> self_removing l) [Fn 2]
       \<and> listeners (Str ''k'') (fst (emitAsync quiet (Str ''k'') [VNum 1] s)) = Inr [Fn 2]
       \<and> listenerCount (Str ''k'') (fst (emitAsync quiet (Str ''k'') [VNum 1] s))
           = Some (Count 1)
       \<and> trace (fst (emitAsync quiet (Str ''k'') [VNum 2]
                       (fst (emitAsync quiet (Str ''k'') [VNum 1] s))))
           = [Called 2 [VNum 1], Called 2 [VNum 2]])"
proof -
  let ?s = "once (Str ''k'') (Fn 2) None new_emitter"
  have l: "listeners (Str ''k'') ?s = Inr [Fn 2]" "listenerCount (Str ''k'') ?s = Some (Count 1)"
    "trace ?s = []"
    by (simp_all add: emitter_defs Let_def cong: let_weak_cong)
  have h: "list_all (\<lambda>l. \<not> self_removing l) [Fn 2]" by simp
  from emitAsync_keeps_once_listeners [OF l(1) h, of quiet "[VNum 1]" "[VNum 2]"] l
  show ?thesis by (simp add: Let_def quiet_def)
qed

text \<open>
  Claim C10 as first stated fails: listener 1 is registered on \<^verbatim>\<open>k\<close> with
  \<^verbatim>\<open>times: 1\<close>, listener 2 with \<^verbatim>\<open>once\<close>. \<^verbatim>\<open>emitAsync('k')\<close> calls both;
  the wrapper of listener 1 removes itself, so \<^verbatim>\<open>listenerCount('k')\<close> goes
  from 2 to 1.
\<close>

theorem emitAsync_changes_listenerCount:
  "(case addListener (Str ''k'') 1 (Some (with_times 1)) new_emitter of
      Inl e \<Rightarrow> None
    | Inr s \<Rightarrow>
        (let s1 = once (Str ''k'') (Fn 2) None s;
             r = emitAsync quiet (Str ''k'') [] s1
         in Some (listenerCount (Str ''k'') s1, trace (fst r),
                  listenerCount (Str ''k'') (fst r), listeners (Str ''k'') (fst r))))
   = Some (Some (Count 2), [Called 1 [], Called 2 []], Some (Count 1), Inr [Fn 2])"
  by (simp add: emitter_defs Let_def cong: let_weak_cong)

end
